theory Spec2Isabelle
  imports Complex_Main "HOL-Library.Multiset" "HOL-Library.Sublist"
begin

section \<open>Errors raised by the orchestration engine\<close>

text \<open>
  Every exception the modelled code can raise is a value.  \<open>BackendError\<close> stands for the
  generic \<open>Exception\<close> a provider's \<open>chat\<close> raises.
\<close>

datatype error =
    IndexError
  | ValueError
  | KeyError
  | TypeError
  | AllProvidersFailedException
  | BudgetExceededException string
  | BackendError string

section \<open>schemas.py\<close>

datatype role = User | Assistant | System

text \<open>\<open>timestamp\<close> is the clock reading taken when the message is built.\<close>

record Message =
  role :: role
  content :: string
  timestamp :: int
  tokens :: "int option"

record ConversationConfig =
  max_messages :: int
  context_window :: int
  summarize_old_messages :: bool

section \<open>conversation.py: the conversation window\<close>

record ConversationContext =
  config :: ConversationConfig
  history :: "Message list"
  total_tokens :: int

definition ConversationContext_init :: "ConversationConfig \<Rightarrow> ConversationContext" where
  "ConversationContext_init cfg = \<lparr>config = cfg, history = [], total_tokens = 0\<rparr>"

text \<open>
  An operation that can raise returns the exception or its value together with the state
  it leaves behind: what was mutated before an exception stays mutated.

  \<open>_manage_context_window\<close>: the \<open>while\<close> loop pops the front while the history is longer
  than \<open>max_messages\<close>; \<open>pop(0)\<close> on an empty list raises \<open>IndexError\<close>.  The second
  \<open>if\<close> of the source only writes a log line.
\<close>

function manage_context_window :: "ConversationContext \<Rightarrow> (error + unit) \<times> ConversationContext" where
  "manage_context_window s =
     (if int (length (history s)) > max_messages (config s) then
        (case history s of
           [] \<Rightarrow> (Inl IndexError, s)
         | removed # rest \<Rightarrow>
             manage_context_window
               (s\<lparr>history := rest,
                  total_tokens :=
                    (case tokens removed of
                       None \<Rightarrow> total_tokens s
                     | Some n \<Rightarrow> if n \<noteq> 0 then total_tokens s - n else total_tokens s)\<rparr>))
      else (Inr (), s))"
  by pat_completeness auto
termination
  by (relation "measure (\<lambda>s. length (history s))") auto

declare manage_context_window.simps [simp del]

text \<open>\<open>add_message\<close>; \<open>if tokens:\<close> is false for \<open>None\<close> and for \<open>0\<close>.\<close>

definition add_message ::
  "int \<Rightarrow> role \<Rightarrow> string \<Rightarrow> int option \<Rightarrow> ConversationContext
     \<Rightarrow> (error + unit) \<times> ConversationContext" where
  "add_message now r c tk s =
     (let message = \<lparr>role = r, content = c, timestamp = now, tokens = tk\<rparr>;
          s1 = s\<lparr>history := history s @ [message]\<rparr>;
          s2 = (case tk of
                  None \<Rightarrow> s1
                | Some n \<Rightarrow> if n \<noteq> 0 then s1\<lparr>total_tokens := total_tokens s1 + n\<rparr> else s1)
      in manage_context_window s2)"

text \<open>
  \<open>get_messages\<close>: \<open>if last_n:\<close> is false for \<open>None\<close> and for \<open>0\<close>; otherwise the slice
  \<open>history[-last_n:]\<close>, which for a negative \<open>last_n\<close> is \<open>history[|last_n|:]\<close>.
  The history itself is not touched.
\<close>

definition get_messages :: "ConversationContext \<Rightarrow> int option \<Rightarrow> Message list" where
  "get_messages s last_n =
     (case last_n of
        None \<Rightarrow> history s
      | Some n \<Rightarrow>
          if n = 0 then history s
          else if 0 < n then drop (length (history s) - nat n) (history s)
          else drop (nat (- n)) (history s))"

definition clear :: "ConversationContext \<Rightarrow> ConversationContext" where
  "clear s = s\<lparr>history := [], total_tokens := 0\<rparr>"

definition add_system_prompt :: "int \<Rightarrow> string \<Rightarrow> ConversationContext \<Rightarrow> ConversationContext" where
  "add_system_prompt now prompt s =
     (let system_msg = \<lparr>role = System, content = prompt, timestamp = now, tokens = None\<rparr>
      in s\<lparr>history := system_msg # history s\<rparr>)"

text \<open>The sum of the token counts that are known, over a list of messages.\<close>

definition known_tokens :: "Message list \<Rightarrow> int" where
  "known_tokens ms = sum_list (map (\<lambda>m. case tokens m of None \<Rightarrow> 0 | Some n \<Rightarrow> n) ms)"

text \<open>A sequence of \<open>add_message\<close> calls; the first exception ends it.\<close>

fun add_messages ::
  "ConversationContext \<Rightarrow> (int \<times> role \<times> string \<times> int option) list
     \<Rightarrow> (error + unit) \<times> ConversationContext" where
  "add_messages s [] = (Inr (), s)"
| "add_messages s ((now, r, c, tk) # calls) =
     (case add_message now r c tk s of
        (Inl e, s') \<Rightarrow> (Inl e, s')
      | (Inr _, s') \<Rightarrow> add_messages s' calls)"

section \<open>semantic_cache.py: the semantic cache\<close>

text \<open>
  A float64 value is a real number (one that a double represents), an infinity or
  \<open>nan\<close>; \<open>Fin 0\<close> stands for the zero of either sign.  The arithmetic follows IEEE 754
  and numpy, which does not raise on a division by zero: an operation on \<open>nan\<close> is \<open>nan\<close>,
  \<open>0 * inf\<close>, \<open>0 / 0\<close> and \<open>inf / inf\<close> are \<open>nan\<close>, a non-zero numerator over zero is an
  infinity, and the exact product or quotient of two non-zero finite values is rounded
  to a double, which may overflow to an infinity or underflow to zero.  Rounding is the
  parameter \<open>rnd\<close>.  The sign of a zero tells only in the sign of the infinity a division
  by it gives; the divisor here is a product of norms, never negative.
\<close>

datatype npfloat = Fin real | PosInf | NegInf | NaN

fun np_sign :: "npfloat \<Rightarrow> bool" where
  "np_sign (Fin x) = (0 \<le> x)"
| "np_sign PosInf = True"
| "np_sign NegInf = False"
| "np_sign NaN = True"

definition np_inf :: "bool \<Rightarrow> npfloat" where
  "np_inf positive = (if positive then PosInf else NegInf)"

fun np_multiply :: "(real \<Rightarrow> npfloat) \<Rightarrow> npfloat \<Rightarrow> npfloat \<Rightarrow> npfloat" where
  "np_multiply rnd NaN _ = NaN"
| "np_multiply rnd _ NaN = NaN"
| "np_multiply rnd (Fin x) (Fin y) = (if x = 0 \<or> y = 0 then Fin 0 else rnd (x * y))"
| "np_multiply rnd (Fin x) b = (if x = 0 then NaN else np_inf (np_sign (Fin x) = np_sign b))"
| "np_multiply rnd a (Fin y) = (if y = 0 then NaN else np_inf (np_sign a = np_sign (Fin y)))"
| "np_multiply rnd a b = np_inf (np_sign a = np_sign b)"

fun np_divide :: "(real \<Rightarrow> npfloat) \<Rightarrow> npfloat \<Rightarrow> npfloat \<Rightarrow> npfloat" where
  "np_divide rnd NaN _ = NaN"
| "np_divide rnd _ NaN = NaN"
| "np_divide rnd (Fin x) (Fin y) =
     (if y = 0 then (if x = 0 then NaN else np_inf (0 < x))
      else if x = 0 then Fin 0 else rnd (x / y))"
| "np_divide rnd (Fin x) b = Fin 0"
| "np_divide rnd a (Fin y) = np_inf (np_sign a = np_sign (Fin y))"
| "np_divide rnd a b = NaN"

text \<open>Float comparison: every comparison with \<open>nan\<close> is false.\<close>

fun np_less :: "npfloat \<Rightarrow> npfloat \<Rightarrow> bool" where
  "np_less NaN _ = False"
| "np_less _ NaN = False"
| "np_less (Fin x) (Fin y) = (x < y)"
| "np_less _ NegInf = False"
| "np_less PosInf _ = False"
| "np_less NegInf _ = True"
| "np_less (Fin _) PosInf = True"

fun np_le :: "npfloat \<Rightarrow> npfloat \<Rightarrow> bool" where
  "np_le NaN _ = False"
| "np_le _ NaN = False"
| "np_le (Fin x) (Fin y) = (x \<le> y)"
| "np_le NegInf _ = True"
| "np_le _ PosInf = True"
| "np_le _ NegInf = False"
| "np_le PosInf _ = False"

record CacheEntry =
  query :: string
  embedding :: "npfloat list"
  response :: string
  entry_timestamp :: int
  hits :: int

text \<open>
  \<open>ttl\<close> is the \<open>timedelta\<close> of the source, in the clock's unit.  The sentence-transformer
  held in \<open>self.model\<close> is outside the repository: its \<open>encode\<close> is a parameter of the
  operations that call it, \<open>None\<close> standing for an exception inside it.
\<close>

record SemanticCache =
  threshold :: real
  max_entries :: int
  ttl :: int
  cache :: "CacheEntry list"
  embeddings_available :: bool

definition get_embedding ::
  "(string \<Rightarrow> npfloat list option) \<Rightarrow> SemanticCache \<Rightarrow> string \<Rightarrow> npfloat list option" where
  "get_embedding encode sc text =
     (if \<not> embeddings_available sc then None else encode text)"

text \<open>
  The numpy library is outside the repository as well.  What \<open>np.dot\<close> and
  \<open>np.linalg.norm\<close> compute on two vectors of one length, and how a real number is
  rounded to a double, are parameters; nothing is assumed of them.
\<close>

record numpy =
  np_dot :: "npfloat list \<Rightarrow> npfloat list \<Rightarrow> npfloat"
  linalg_norm :: "npfloat list \<Rightarrow> npfloat"
  round64 :: "real \<Rightarrow> npfloat"

text \<open>
  \<open>_cosine_similarity\<close>: \<open>np.dot\<close> of two vectors of different lengths raises
  \<open>ValueError\<close>; the quotient is taken with no test of the divisor.
\<close>

definition cosine_similarity :: "numpy \<Rightarrow> npfloat list \<Rightarrow> npfloat list \<Rightarrow> error + npfloat" where
  "cosine_similarity np emb1 emb2 =
     (if length emb1 \<noteq> length emb2 then Inl ValueError
      else Inr (np_divide (round64 np) (np_dot np emb1 emb2)
                  (np_multiply (round64 np) (linalg_norm np emb1) (linalg_norm np emb2))))"

text \<open>The slice \<open>xs[:k]\<close>: a negative \<open>k\<close> drops the last \<open>|k|\<close> elements.\<close>

definition py_take :: "int \<Rightarrow> 'a list \<Rightarrow> 'a list" where
  "py_take k xs = (if 0 \<le> k then take (nat k) xs else take (length xs - nat (- k)) xs)"

text \<open>The entries that survive the TTL filter of \<open>_cleanup_old_entries\<close>.\<close>

definition fresh_entries :: "int \<Rightarrow> SemanticCache \<Rightarrow> CacheEntry list" where
  "fresh_entries now sc = filter (\<lambda>entry. now - entry_timestamp entry < ttl sc) (cache sc)"

text \<open>
  \<open>_cleanup_old_entries\<close>.  \<open>list.sort(key=hits, reverse=True)\<close> is stable, as is
  \<open>sort_key\<close> on the negated key.
\<close>

definition cleanup_old_entries :: "int \<Rightarrow> SemanticCache \<Rightarrow> SemanticCache" where
  "cleanup_old_entries now sc =
     (let kept = fresh_entries now sc in
      if int (length kept) > max_entries sc
      then sc\<lparr>cache := py_take (max_entries sc) (sort_key (\<lambda>x. - hits x) kept)\<rparr>
      else sc\<lparr>cache := kept\<rparr>)"

text \<open>
  The search loop of \<open>get_cached_response\<close>; \<open>best_match\<close> refers to an entry of
  \<open>self.cache\<close>, here by its index \<open>i\<close>.
\<close>

fun best_match_loop ::
  "numpy \<Rightarrow> real \<Rightarrow> npfloat list \<Rightarrow> CacheEntry list \<Rightarrow> nat \<Rightarrow> nat option \<times> npfloat
     \<Rightarrow> error + (nat option \<times> npfloat)" where
  "best_match_loop np th query_embedding [] i acc = Inr acc"
| "best_match_loop np th query_embedding (entry # rest) i (best_match, best_similarity) =
     (case cosine_similarity np query_embedding (embedding entry) of
        Inl e \<Rightarrow> Inl e
      | Inr similarity \<Rightarrow>
          if np_less best_similarity similarity \<and> np_le (Fin th) similarity
          then best_match_loop np th query_embedding rest (Suc i) (Some i, similarity)
          else best_match_loop np th query_embedding rest (Suc i) (best_match, best_similarity))"

definition get_cached_response ::
  "numpy \<Rightarrow> (string \<Rightarrow> npfloat list option) \<Rightarrow> int \<Rightarrow> string \<Rightarrow> SemanticCache
     \<Rightarrow> (error + string option) \<times> SemanticCache" where
  "get_cached_response np encode now q sc =
     (if \<not> embeddings_available sc then (Inr None, sc)
      else
        let sc1 = cleanup_old_entries now sc in
        case get_embedding encode sc1 q of
          None \<Rightarrow> (Inr None, sc1)
        | Some query_embedding \<Rightarrow>
            (case best_match_loop np (threshold sc1) query_embedding (cache sc1) 0 (None, Fin 0) of
               Inl e \<Rightarrow> (Inl e, sc1)
             | Inr (None, _) \<Rightarrow> (Inr None, sc1)
             | Inr (Some i, _) \<Rightarrow>
                 (let best = cache sc1 ! i in
                  (Inr (Some (response best)),
                   sc1\<lparr>cache := (cache sc1)[i := best\<lparr>hits := hits best + 1\<rparr>]\<rparr>))))"

definition cache_response ::
  "(string \<Rightarrow> npfloat list option) \<Rightarrow> int \<Rightarrow> string \<Rightarrow> string \<Rightarrow> SemanticCache \<Rightarrow> SemanticCache" where
  "cache_response encode now q resp sc =
     (if \<not> embeddings_available sc then sc
      else
        case get_embedding encode sc q of
          None \<Rightarrow> sc
        | Some emb \<Rightarrow>
            sc\<lparr>cache := cache sc @
              [\<lparr>query = q, embedding = emb, response = resp, entry_timestamp = now, hits = 0\<rparr>]\<rparr>)"

section \<open>core.py: the routing policy\<close>

definition reasoning_keywords :: "string list" where
  "reasoning_keywords =
     [''analizza'', ''ragiona'', ''spiega perch'' @ [CHR 0xC3, CHR 0xA9], ''confronta'',
      ''valuta'', ''quale '' @ [CHR 0xC3, CHR 0xA8] @ '' meglio'', ''pro e contro'', ''calcola'',
      ''risolvi'', ''dimostra'', ''deduce'']"

definition simple_keywords :: "string list" where
  "simple_keywords =
     [''traduci'', ''riassumi'', ''lista'', ''elenca'', ''genera html'', ''formato json'']"

text \<open>
  \<open>_smart_route_model\<close>.  Strings are their UTF-8 bytes, on which \<open>keyword in text\<close> is
  \<^const>\<open>sublist\<close>.  \<open>str.lower\<close> belongs to the Python runtime and is the parameter
  \<open>lower\<close>.
\<close>

definition smart_route_model :: "(string \<Rightarrow> string) \<Rightarrow> string \<Rightarrow> string" where
  "smart_route_model lower prompt =
     (let prompt_lower = lower prompt in
      if list_ex (\<lambda>keyword. sublist keyword prompt_lower) reasoning_keywords
      then ''deepseek-reasoner''
      else if list_ex (\<lambda>keyword. sublist keyword prompt_lower) simple_keywords
      then ''deepseek-chat''
      else ''deepseek-chat'')"

text \<open>\<open>str.lower\<close> on ASCII text, for the worked examples.\<close>

definition ascii_lower_char :: "char \<Rightarrow> char" where
  "ascii_lower_char c =
     (case map_of (zip ''ABCDEFGHIJKLMNOPQRSTUVWXYZ'' ''abcdefghijklmnopqrstuvwxyz'') c of
        None \<Rightarrow> c
      | Some d \<Rightarrow> d)"

definition ascii_lower :: "string \<Rightarrow> string" where
  "ascii_lower s = map ascii_lower_char s"

section \<open>providers.py and schemas.py: adapters and responses\<close>

record ToolCall =
  tool_name :: string
  arguments :: string

text \<open>\<open>AIResponse\<close>; \<open>response_content\<close> and \<open>response_model\<close> are its \<open>content\<close> and \<open>model\<close>.\<close>

record AIResponse =
  response_content :: string
  response_model :: string
  provider :: string
  tokens_used :: int
  cached :: bool
  tool_calls :: "ToolCall list option"

record GenerationParams =
  model :: string
  max_tokens :: int
  stream :: bool
  temperature :: real
  tools :: "string list option"

text \<open>
  A backend adapter.  Its \<open>chat\<close> is a call into the outside world \<open>'w\<close>: it answers or
  raises, and leaves the world changed, so that two calls with the same arguments need
  not agree.  \<open>health_check\<close> is what \<open>_health_check\<close> does when it is probed: \<open>None\<close> when it
  raises.
\<close>

record 'w BaseProvider =
  name :: string
  health_check :: "bool option"
  provider_chat :: "'w \<Rightarrow> Message list \<Rightarrow> GenerationParams \<Rightarrow> (error + AIResponse) \<times> 'w"

definition is_available :: "'w BaseProvider \<Rightarrow> bool" where
  "is_available p = (case health_check p of None \<Rightarrow> False | Some b \<Rightarrow> b)"

section \<open>core.py: the orchestration engine\<close>

record ProviderStats =
  requests :: int
  successes :: int
  failures :: int

record RequestRecord =
  record_prompt :: string
  record_model :: string
  record_provider :: string
  record_tokens :: int
  record_cached :: bool

text \<open>
  \<open>cost_controller.py\<close> and \<open>tools.py\<close> are not among the sources: the budget governor's
  state is the type \<open>'b\<close>, the tools manager the type \<open>'t\<close>, and their operations are fields
  of the environment below, beside the runtime's clock, \<open>str.lower\<close>, \<open>str.split\<close>, numpy,
  the embedding model and the formatting of a tool result.
\<close>

record ('w, 'b, 't) AIOrchestrator =
  providers :: "'w BaseProvider list"
  provider_priority :: "string \<rightharpoonup> int"
  cost_controller :: 'b
  semantic_cache :: "SemanticCache option"
  conversation :: ConversationContext
  tools_manager :: "'t option"
  request_history :: "RequestRecord list"
  provider_stats :: "string \<rightharpoonup> ProviderStats"

record ('w, 'b, 't) environment =
  clock :: "'w \<Rightarrow> int"
  numpy_ops :: numpy
  encode :: "string \<Rightarrow> npfloat list option"
  str_lower :: "string \<Rightarrow> string"
  str_split :: "string \<Rightarrow> string list"
  check_budget :: "'w \<Rightarrow> 'b \<Rightarrow> int \<Rightarrow> string \<Rightarrow> (error + unit) \<times> 'b"
  record_usage :: "'w \<Rightarrow> 'b \<Rightarrow> int \<Rightarrow> string \<Rightarrow> 'b"
  get_tool_definitions :: "'t \<Rightarrow> string list"
  format_tool_result :: "string list option \<Rightarrow> string"

definition new_stats :: ProviderStats where
  "new_stats = \<lparr>requests = 0, successes = 0, failures = 0\<rparr>"

text \<open>
  \<open>register_provider\<close>.  The adapter is appended and its priority stored before the sort.
  The sort key reads \<open>provider_priority[p.name]\<close>, a \<open>KeyError\<close> for an adapter that was
  put in the list without being registered: \<open>list.sort\<close> computes every key before it
  moves an element, so the exception leaves the list in the order it had.  The sort is
  stable.
\<close>

definition register_provider ::
  "'w BaseProvider \<Rightarrow> int \<Rightarrow> ('w, 'b, 't) AIOrchestrator
     \<Rightarrow> (error + unit) \<times> ('w, 'b, 't) AIOrchestrator" where
  "register_provider p priority orch =
     (let ps = providers orch @ [p];
          prio = (provider_priority orch)(name p \<mapsto> priority);
          orch1 = orch\<lparr>providers := ps, provider_priority := prio\<rparr>
      in if list_ex (\<lambda>q. prio (name q) = None) ps then (Inl KeyError, orch1)
         else (Inr (),
               orch1\<lparr>providers := sort_key (\<lambda>q. case prio (name q) of None \<Rightarrow> 0 | Some k \<Rightarrow> k) ps,
                      provider_stats :=
                        (if provider_stats orch (name p) = None
                         then (provider_stats orch)(name p \<mapsto> new_stats)
                         else provider_stats orch)\<rparr>))"

text \<open>
  The inner loop of \<open>_execute_with_fallback\<close>, \<open>for attempt in range(max_retries)\<close>, over
  the attempts still to come; \<open>stats\<close> is the adapter's entry of \<open>provider_stats\<close>.
\<close>

fun retry_loop ::
  "'w BaseProvider \<Rightarrow> Message list \<Rightarrow> GenerationParams \<Rightarrow> int \<Rightarrow> nat list \<Rightarrow> ProviderStats \<Rightarrow> 'w
     \<Rightarrow> AIResponse option \<times> ProviderStats \<times> 'w" where
  "retry_loop p messages params max_retries [] stats w = (None, stats, w)"
| "retry_loop p messages params max_retries (attempt # rest) stats w =
     (let stats1 = stats\<lparr>requests := requests stats + 1\<rparr> in
      case provider_chat p w messages params of
        (Inr resp, w') \<Rightarrow> (Some resp, stats1\<lparr>successes := successes stats1 + 1\<rparr>, w')
      | (Inl e, w') \<Rightarrow>
          (let stats2 = stats1\<lparr>failures := failures stats1 + 1\<rparr> in
           if int attempt < max_retries - 1
           then retry_loop p messages params max_retries rest stats2 w'
           else (None, stats2, w')))"

text \<open>The outer loop, \<open>for provider in self.providers\<close>, and what follows it.\<close>

fun fallback_loop ::
  "'w BaseProvider list \<Rightarrow> Message list \<Rightarrow> GenerationParams \<Rightarrow> int
     \<Rightarrow> (string \<rightharpoonup> ProviderStats) \<Rightarrow> 'w
     \<Rightarrow> (error + AIResponse) \<times> (string \<rightharpoonup> ProviderStats) \<times> 'w" where
  "fallback_loop [] messages params max_retries pstats w =
     (Inl AllProvidersFailedException, pstats, w)"
| "fallback_loop (p # rest) messages params max_retries pstats w =
     (if \<not> is_available p then fallback_loop rest messages params max_retries pstats w
      else
        case pstats (name p) of
          None \<Rightarrow> (Inl KeyError, pstats, w)
        | Some stats \<Rightarrow>
            (case retry_loop p messages params max_retries [0..<nat max_retries] stats w of
               (Some resp, stats', w') \<Rightarrow> (Inr resp, pstats(name p \<mapsto> stats'), w')
             | (None, stats', w') \<Rightarrow>
                 fallback_loop rest messages params max_retries (pstats(name p \<mapsto> stats')) w'))"

definition execute_with_fallback ::
  "('w, 'b, 't) AIOrchestrator \<Rightarrow> Message list \<Rightarrow> GenerationParams \<Rightarrow> int \<Rightarrow> 'w
     \<Rightarrow> (error + AIResponse) \<times> ('w, 'b, 't) AIOrchestrator \<times> 'w" where
  "execute_with_fallback orch messages params max_retries w =
     (if providers orch = [] then (Inl ValueError, orch, w)
      else
        case fallback_loop (providers orch) messages params max_retries (provider_stats orch) w of
          (res, pstats, w') \<Rightarrow> (res, orch\<lparr>provider_stats := pstats\<rparr>, w'))"

text \<open>
  Two notions used to state what the executor leaves in \<open>provider_stats\<close>: an entry after
  \<open>n\<close> failed attempts, and the number of available adapters of a list that bear a given
  name (adapters of one vendor share their name, hence their entry).
\<close>

definition failed_attempts :: "nat \<Rightarrow> ProviderStats \<Rightarrow> ProviderStats" where
  "failed_attempts n stats =
     stats\<lparr>requests := requests stats + int n, failures := failures stats + int n\<rparr>"

definition available_named :: "string \<Rightarrow> 'w BaseProvider list \<Rightarrow> nat" where
  "available_named n ps = length (filter (\<lambda>p. is_available p \<and> name p = n) ps)"

text \<open>
  The specification's account of a call, stated on the adapters alone and with no
  counters: the adapters are taken in the order of the list, one whose probe is false is
  skipped, an available one is asked up to \<open>n\<close> times, and the first answer ends
  everything.  \<open>attempt_log\<close> is the list of what the \<open>chat\<close> calls made in this way returned,
  in order, with the world they leave; \<open>answers\<close> are the responses in such a list.
\<close>

definition answers :: "(error + 'a) list \<Rightarrow> 'a list" where
  "answers outcomes = concat (map (\<lambda>oc. case oc of Inl e \<Rightarrow> [] | Inr r \<Rightarrow> [r]) outcomes)"

fun adapter_attempts ::
  "'w BaseProvider \<Rightarrow> Message list \<Rightarrow> GenerationParams \<Rightarrow> nat \<Rightarrow> 'w
     \<Rightarrow> (error + AIResponse) list \<times> 'w" where
  "adapter_attempts p messages params 0 w = ([], w)"
| "adapter_attempts p messages params (Suc n) w =
     (case provider_chat p w messages params of
        (Inr resp, w') \<Rightarrow> ([Inr resp], w')
      | (Inl e, w') \<Rightarrow>
          (case adapter_attempts p messages params n w' of
             (outcomes, w'') \<Rightarrow> (Inl e # outcomes, w'')))"

fun attempt_log ::
  "'w BaseProvider list \<Rightarrow> Message list \<Rightarrow> GenerationParams \<Rightarrow> nat \<Rightarrow> 'w
     \<Rightarrow> (error + AIResponse) list \<times> 'w" where
  "attempt_log [] messages params n w = ([], w)"
| "attempt_log (p # rest) messages params n w =
     (if \<not> is_available p then attempt_log rest messages params n w
      else
        case adapter_attempts p messages params n w of
          (outcomes, w') \<Rightarrow>
            if answers outcomes \<noteq> [] then (outcomes, w')
            else (case attempt_log rest messages params n w' of
                    (later, w'') \<Rightarrow> (outcomes @ later, w'')))"

text \<open>
  \<open>_handle_tool_calls\<close>.  The elements of \<open>response.tool_calls\<close> are \<open>ToolCall\<close> objects
  (the field of \<open>AIResponse\<close> is a list of that pydantic model), and the first statement of
  the loop subscripts one of them, \<open>tc["name"]\<close>: a \<open>TypeError\<close>, raised before any tool
  is run.  Only an empty list passes the loop.
\<close>

fun run_tool_calls :: "ToolCall list \<Rightarrow> string list \<Rightarrow> error + string list" where
  "run_tool_calls [] results = Inr results"
| "run_tool_calls (tc # rest) results = Inl TypeError"

definition handle_tool_calls ::
  "'t option \<Rightarrow> ToolCall list \<Rightarrow> 'w \<Rightarrow> (error + string list option) \<times> 'w" where
  "handle_tool_calls manager tcs w =
     (case manager of
        None \<Rightarrow> (Inr None, w)
      | Some tm \<Rightarrow>
          (case run_tool_calls tcs [] of
             Inl e \<Rightarrow> (Inl e, w)
           | Inr results \<Rightarrow> (Inr (Some results), w)))"

text \<open>
  \<open>chat\<close>, step 7: the tool-call round, entered when the response carries a non-empty list
  of tool calls and a tools manager is configured.
\<close>

definition tool_round ::
  "('w, 'b, 't) environment \<Rightarrow> AIResponse \<Rightarrow> GenerationParams \<Rightarrow> int
     \<Rightarrow> ('w, 'b, 't) AIOrchestrator \<Rightarrow> 'w
     \<Rightarrow> (error + AIResponse) \<times> ('w, 'b, 't) AIOrchestrator \<times> 'w" where
  "tool_round env resp params max_retries orch w =
     (if tool_calls resp \<noteq> None \<and> tool_calls resp \<noteq> Some [] \<and> tools_manager orch \<noteq> None then
        (case handle_tool_calls (tools_manager orch)
                (case tool_calls resp of None \<Rightarrow> [] | Some tcs \<Rightarrow> tcs) w of
           (Inl e, w1) \<Rightarrow> (Inl e, orch, w1)
         | (Inr tool_result, w1) \<Rightarrow>
             (case add_message (clock env w1) Assistant (response_content resp) None
                     (conversation orch) of
                (Inl e, c1) \<Rightarrow> (Inl e, orch\<lparr>conversation := c1\<rparr>, w1)
              | (Inr _, c1) \<Rightarrow>
                  (case add_message (clock env w1) System
                          (''Tool result: '' @ format_tool_result env tool_result) None c1 of
                     (Inl e, c2) \<Rightarrow> (Inl e, orch\<lparr>conversation := c2\<rparr>, w1)
                   | (Inr _, c2) \<Rightarrow>
                       execute_with_fallback (orch\<lparr>conversation := c2\<rparr>)
                         (get_messages c2 None) params max_retries w1)))
      else (Inr resp, orch, w))"

text \<open>\<open>chat\<close>, steps 8 to 11: conversation commit, cache store, usage record, analytics.\<close>

definition chat_commit ::
  "('w, 'b, 't) environment \<Rightarrow> string \<Rightarrow> string \<Rightarrow> bool \<Rightarrow> bool \<Rightarrow> AIResponse
     \<Rightarrow> ('w, 'b, 't) AIOrchestrator \<Rightarrow> 'w
     \<Rightarrow> (error + AIResponse) \<times> ('w, 'b, 't) AIOrchestrator \<times> 'w" where
  "chat_commit env prompt mdl use_conversation use_cache resp orch w =
     (case (if use_conversation
            then add_message (clock env w) Assistant (response_content resp)
                   (Some (tokens_used resp)) (conversation orch)
            else (Inr (), conversation orch)) of
        (Inl e, c) \<Rightarrow> (Inl e, orch\<lparr>conversation := c\<rparr>, w)
      | (Inr _, c) \<Rightarrow>
          (let orch1 = orch\<lparr>conversation := c\<rparr>;
               orch2 =
                 (case semantic_cache orch1 of
                    None \<Rightarrow> orch1
                  | Some sc \<Rightarrow>
                      if use_cache \<and> \<not> cached resp
                      then orch1\<lparr>semantic_cache :=
                             Some (cache_response (encode env) (clock env w) prompt
                                     (response_content resp) sc)\<rparr>
                      else orch1);
               orch3 = orch2\<lparr>cost_controller :=
                         record_usage env w (cost_controller orch2) (tokens_used resp) mdl\<rparr>;
               orch4 = orch3\<lparr>request_history := request_history orch3 @
                         [\<lparr>record_prompt = prompt, record_model = mdl,
                           record_provider = provider resp, record_tokens = tokens_used resp,
                           record_cached = cached resp\<rparr>]\<rparr>
           in (Inr resp, orch4, w)))"

text \<open>
  \<open>chat\<close>, steps 2 to 7, run when the cache probe gave nothing: the prompt goes to the
  conversation, the model is routed when none (or the empty name) is given, the budget is
  checked, and the adapters are driven.
\<close>

definition chat_uncached ::
  "('w, 'b, 't) environment \<Rightarrow> string \<Rightarrow> string option \<Rightarrow> bool \<Rightarrow> bool \<Rightarrow> bool \<Rightarrow> int
     \<Rightarrow> ('w, 'b, 't) AIOrchestrator \<Rightarrow> 'w
     \<Rightarrow> (error + AIResponse) \<times> ('w, 'b, 't) AIOrchestrator \<times> 'w" where
  "chat_uncached env prompt model_arg use_conversation use_cache use_tools max_retries orch w =
     (case (if use_conversation
            then (case add_message (clock env w) User prompt None (conversation orch) of
                    (Inl e, c) \<Rightarrow> (Inl e, c)
                  | (Inr _, c) \<Rightarrow> (Inr (get_messages c None), c))
            else (Inr [\<lparr>role = User, content = prompt, timestamp = clock env w, tokens = None\<rparr>],
                  conversation orch)) of
        (Inl e, c) \<Rightarrow> (Inl e, orch\<lparr>conversation := c\<rparr>, w)
      | (Inr messages, c) \<Rightarrow>
          (let orch1 = orch\<lparr>conversation := c\<rparr>;
               mdl = (case model_arg of
                        None \<Rightarrow> smart_route_model (str_lower env) prompt
                      | Some m \<Rightarrow> if m = [] then smart_route_model (str_lower env) prompt else m);
               estimated_tokens = int (length (str_split env prompt)) * 2
           in case check_budget env w (cost_controller orch1) estimated_tokens mdl of
                (Inl e, b) \<Rightarrow> (Inl e, orch1\<lparr>cost_controller := b\<rparr>, w)
              | (Inr _, b) \<Rightarrow>
                  (let orch2 = orch1\<lparr>cost_controller := b\<rparr>;
                       params0 = \<lparr>model = mdl, max_tokens = 1000, stream = False,
                                  temperature = 7 / 10, tools = None\<rparr>;
                       params = (case tools_manager orch2 of
                                   None \<Rightarrow> params0
                                 | Some tm \<Rightarrow>
                                     if use_tools
                                     then params0\<lparr>tools := Some (get_tool_definitions env tm)\<rparr>
                                     else params0)
                   in case execute_with_fallback orch2 messages params max_retries w of
                        (Inl e, orch3, w3) \<Rightarrow> (Inl e, orch3, w3)
                      | (Inr resp, orch3, w3) \<Rightarrow>
                          (case tool_round env resp params max_retries orch3 w3 of
                             (Inl e, orch4, w4) \<Rightarrow> (Inl e, orch4, w4)
                           | (Inr resp', orch4, w4) \<Rightarrow>
                               chat_commit env prompt mdl use_conversation use_cache resp'
                                 orch4 w4))))"

text \<open>
  \<open>chat\<close>.  Step 1 probes the cache; \<open>if cached:\<close> holds for a string that is neither
  \<open>None\<close> nor empty.
\<close>

definition chat ::
  "('w, 'b, 't) environment \<Rightarrow> string \<Rightarrow> string option \<Rightarrow> bool \<Rightarrow> bool \<Rightarrow> bool \<Rightarrow> int
     \<Rightarrow> ('w, 'b, 't) AIOrchestrator \<Rightarrow> 'w
     \<Rightarrow> (error + AIResponse) \<times> ('w, 'b, 't) AIOrchestrator \<times> 'w" where
  "chat env prompt model_arg use_conversation use_cache use_tools max_retries orch w =
     (case (if use_cache then semantic_cache orch else None) of
        None \<Rightarrow>
          chat_uncached env prompt model_arg use_conversation use_cache use_tools max_retries
            orch w
      | Some sc \<Rightarrow>
          (case get_cached_response (numpy_ops env) (encode env) (clock env w) prompt sc of
             (Inl e, sc') \<Rightarrow> (Inl e, orch\<lparr>semantic_cache := Some sc'\<rparr>, w)
           | (Inr hit, sc') \<Rightarrow>
               (let orch' = orch\<lparr>semantic_cache := Some sc'\<rparr> in
                case hit of
                  None \<Rightarrow>
                    chat_uncached env prompt model_arg use_conversation use_cache use_tools
                      max_retries orch' w
                | Some text \<Rightarrow>
                    if text \<noteq> []
                    then (Inr \<lparr>response_content = text, response_model = ''cached'',
                               provider = ''cache'', tokens_used = 0, cached = True,
                               tool_calls = None\<rparr>, orch', w)
                    else chat_uncached env prompt model_arg use_conversation use_cache
                           use_tools max_retries orch' w)))"

text \<open>\<open>get_analytics\<close>: the field \<open>total_requests\<close>.\<close>

definition total_requests :: "('w, 'b, 't) AIOrchestrator \<Rightarrow> nat" where
  "total_requests orch = length (request_history orch)"

section \<open>Worked inputs\<close>

definition window_cfg :: "int \<Rightarrow> ConversationConfig" where
  "window_cfg n = \<lparr>max_messages = n, context_window = 4096, summarize_old_messages = True\<rparr>"

definition three_appends :: "(int \<times> role \<times> string \<times> int option) list" where
  "three_appends =
     [(1, User, ''ciao'', Some 5), (2, Assistant, ''salve'', None), (3, User, ''grazie'', Some 7)]"

text \<open>A window of capacity one that already holds one message.\<close>

definition full_window :: ConversationContext where
  "full_window = snd (add_message 1 User ''ciao'' None (ConversationContext_init (window_cfg 1)))"

definition two_messages :: ConversationContext where
  "two_messages =
     snd (add_messages (ConversationContext_init (window_cfg 10))
            [(1, User, ''ciao'', None), (2, Assistant, ''salve'', None)])"

text \<open>
  A stand-in for numpy on the vectors of the worked inputs, whose components are 0 and
  1: their dot products, norms, products and quotients are exact in float64, so that
  nothing is rounded.
\<close>

fun fin_values :: "npfloat list \<Rightarrow> real list option" where
  "fin_values [] = Some []"
| "fin_values (Fin x # rest) = map_option ((#) x) (fin_values rest)"
| "fin_values (_ # rest) = None"

definition exact_numpy :: numpy where
  "exact_numpy =
     \<lparr>np_dot = (\<lambda>a b. case (fin_values a, fin_values b) of
                       (Some xs, Some ys) \<Rightarrow> Fin (sum_list (map2 (*) xs ys))
                     | _ \<Rightarrow> NaN),
      linalg_norm = (\<lambda>a. case fin_values a of
                           Some xs \<Rightarrow> Fin (sqrt (sum_list (map (\<lambda>x. x * x) xs)))
                         | None \<Rightarrow> NaN),
      round64 = Fin\<rparr>"

text \<open>An embedding model that sends every text to the same unit vector.\<close>

definition unit_encode :: "string \<Rightarrow> npfloat list option" where
  "unit_encode s = Some [Fin 1, Fin 0]"

text \<open>One entry stored at time 0, with a TTL of 24.\<close>

definition one_entry_cache :: SemanticCache where
  "one_entry_cache =
     \<lparr>threshold = 95 / 100, max_entries = 1000, ttl = 24,
      cache = [\<lparr>query = ''ciao'', embedding = [Fin 1, Fin 0], response = ''salve'',
                entry_timestamp = 0, hits = 3\<rparr>],
      embeddings_available = True\<rparr>"

definition entry_with_hits :: "int \<Rightarrow> int \<Rightarrow> CacheEntry" where
  "entry_with_hits t h =
     \<lparr>query = ''q'', embedding = [Fin 1, Fin 0], response = ''r'', entry_timestamp = t, hits = h\<rparr>"

text \<open>
  Capacity two; at time 30 the first entry (9 hits) is expired and three are fresh.
\<close>

definition crowded_cache :: SemanticCache where
  "crowded_cache =
     \<lparr>threshold = 95 / 100, max_entries = 2, ttl = 24,
      cache = [entry_with_hits 0 9, entry_with_hits 10 1, entry_with_hits 11 5,
               entry_with_hits 12 3],
      embeddings_available = True\<rparr>"

definition negative_capacity_cache :: SemanticCache where
  "negative_capacity_cache =
     \<lparr>threshold = 95 / 100, max_entries = - 1, ttl = 24,
      cache = [entry_with_hits 0 0],
      embeddings_available = True\<rparr>"

text \<open>
  Adapters for the scenarios: the world is the number of backend calls made so far.  One
  adapter always raises, one always answers \<open>ok\<close> with 10 tokens, one has a health check
  that raises.
\<close>

definition failing_provider :: "string \<Rightarrow> nat BaseProvider" where
  "failing_provider n =
     \<lparr>name = n, health_check = Some True,
      provider_chat = (\<lambda>w messages params. (Inl (BackendError ''timeout''), Suc w))\<rparr>"

definition ok_response :: "string \<Rightarrow> string \<Rightarrow> string \<Rightarrow> AIResponse" where
  "ok_response n m c =
     \<lparr>response_content = c, response_model = m, provider = n, tokens_used = 10,
      cached = False, tool_calls = None\<rparr>"

definition answering_provider :: "string \<Rightarrow> string \<Rightarrow> nat BaseProvider" where
  "answering_provider n c =
     \<lparr>name = n, health_check = Some True,
      provider_chat = (\<lambda>w messages params. (Inr (ok_response n (model params) c), Suc w))\<rparr>"

definition offline_provider :: "string \<Rightarrow> nat BaseProvider" where
  "offline_provider n =
     \<lparr>name = n, health_check = None,
      provider_chat = (\<lambda>w messages params. (Inr (ok_response n (model params) ''ok''), Suc w))\<rparr>"

text \<open>\<open>AIOrchestrator.__init__\<close> with the cache given and no tools manager.\<close>

definition fresh_orchestrator :: "SemanticCache option \<Rightarrow> (nat, unit, unit) AIOrchestrator" where
  "fresh_orchestrator sc =
     \<lparr>providers = [], provider_priority = Map.empty, cost_controller = (),
      semantic_cache = sc, conversation = ConversationContext_init (window_cfg 10),
      tools_manager = None, request_history = [], provider_stats = Map.empty\<rparr>"

text \<open>A sequence of registrations; the first exception ends it.\<close>

fun register_all ::
  "('w BaseProvider \<times> int) list \<Rightarrow> ('w, 'b, 't) AIOrchestrator
     \<Rightarrow> (error + unit) \<times> ('w, 'b, 't) AIOrchestrator" where
  "register_all [] orch = (Inr (), orch)"
| "register_all ((p, priority) # rest) orch =
     (case register_provider p priority orch of
        (Inl e, orch') \<Rightarrow> (Inl e, orch')
      | (Inr _, orch') \<Rightarrow> register_all rest orch')"

text \<open>
  The scenario of the specification: B (priority 2, answers) and A (priority 1, always
  fails), registered in this order.
\<close>

definition scenario_AB :: "(nat, unit, unit) AIOrchestrator" where
  "scenario_AB =
     snd (register_all [(answering_provider ''B'' ''ok'', 2), (failing_provider ''A'', 1)]
            (fresh_orchestrator None))"

text \<open>Two adapters that fail and one that is offline.\<close>

definition scenario_down :: "(nat, unit, unit) AIOrchestrator" where
  "scenario_down =
     snd (register_all [(failing_provider ''A'', 1), (offline_provider ''B'', 2),
                        (failing_provider ''C'', 3)]
            (fresh_orchestrator None))"

definition hello :: "Message list" where
  "hello = [\<lparr>role = User, content = ''hello'', timestamp = 0, tokens = None\<rparr>]"

definition chat_params :: GenerationParams where
  "chat_params =
     \<lparr>model = ''deepseek-chat'', max_tokens = 1000, stream = False, temperature = 7 / 10,
      tools = None\<rparr>"

text \<open>
  An environment for \<open>chat\<close>: the clock reads the world, texts are split at spaces, the
  budget check always passes and there are no tools.
\<close>

fun split_spaces :: "string \<Rightarrow> string \<Rightarrow> string list" where
  "split_spaces cur [] = (if cur = [] then [] else [cur])"
| "split_spaces cur (c # cs) =
     (if c = CHR '' '' then (if cur = [] then split_spaces [] cs else cur # split_spaces [] cs)
      else split_spaces (cur @ [c]) cs)"

definition plain_env :: "(nat, unit, unit) environment" where
  "plain_env =
     \<lparr>clock = int, numpy_ops = exact_numpy, encode = unit_encode, str_lower = ascii_lower,
      str_split = split_spaces [],
      check_budget = (\<lambda>w b n m. (Inr (), b)),
      record_usage = (\<lambda>w b n m. b),
      get_tool_definitions = (\<lambda>t. []),
      format_tool_result = (\<lambda>r. [])\<rparr>"

definition empty_cache :: SemanticCache where
  "empty_cache =
     \<lparr>threshold = 95 / 100, max_entries = 1000, ttl = 24, cache = [],
      embeddings_available = True\<rparr>"

text \<open>
  One adapter whose answer has an empty content, as a backend's answer may have, and the
  orchestrator after a first \<open>chat(''hello'')\<close>, which has stored that answer in the cache.
\<close>

definition silent_orchestrator :: "(nat, unit, unit) AIOrchestrator" where
  "silent_orchestrator =
     snd (register_all [(answering_provider ''B'' [], 1)]
            (fresh_orchestrator (Some empty_cache)))"

definition after_first_chat :: "(nat, unit, unit) AIOrchestrator \<times> nat" where
  "after_first_chat = snd (chat plain_env ''hello'' None True True False 3 silent_orchestrator 0)"

definition second_chat ::
  "(error + AIResponse) \<times> (nat, unit, unit) AIOrchestrator \<times> nat" where
  "second_chat =
     chat plain_env ''hello'' None True True False 3 (fst after_first_chat) (snd after_first_chat)"

section \<open>Properties of the conversation window\<close>

lemma manage_context_window_config:
  "manage_context_window s = (res, s') \<Longrightarrow> config s' = config s"
proof (induction s rule: manage_context_window.induct)
  case (1 s)
  then show ?case
    by (subst (asm) (2) manage_context_window.simps)
       (auto split: if_splits list.splits)
qed

lemma manage_context_window_bound:
  "manage_context_window s = (Inr u, s') \<Longrightarrow> int (length (history s')) \<le> max_messages (config s')"
proof (induction s rule: manage_context_window.induct)
  case (1 s)
  then show ?case
    by (subst (asm) (2) manage_context_window.simps)
       (auto split: if_splits list.splits)
qed

lemma manage_context_window_tokens:
  "manage_context_window s = (res, s') \<Longrightarrow> total_tokens s = known_tokens (history s)
     \<Longrightarrow> total_tokens s' = known_tokens (history s')"
proof (induction s rule: manage_context_window.induct)
  case (1 s)
  show ?case
  proof (cases "int (length (history s)) > max_messages (config s)")
    case False
    with "1.prems" show ?thesis
      by (subst (asm) manage_context_window.simps) auto
  next
    case True
    show ?thesis
    proof (cases "history s")
      case Nil
      with "1.prems" True show ?thesis
        by (subst (asm) manage_context_window.simps) auto
    next
      case (Cons removed rest)
      let ?s = "s\<lparr>history := rest,
                    total_tokens :=
                      (case tokens removed of
                         None \<Rightarrow> total_tokens s
                       | Some n \<Rightarrow> if n \<noteq> 0 then total_tokens s - n else total_tokens s)\<rparr>"
      have step: "manage_context_window ?s = (res, s')"
        using "1.prems"(1) True Cons by (subst (asm) manage_context_window.simps) simp
      have inv: "total_tokens ?s = known_tokens (history ?s)"
        using "1.prems"(2) Cons by (auto simp: known_tokens_def split: option.splits)
      show ?thesis
        using "1.IH"[OF True Cons step inv] .
    qed
  qed
qed

lemma manage_context_window_total:
  "0 \<le> max_messages (config s) \<Longrightarrow> fst (manage_context_window s) = Inr ()"
proof (induction s rule: manage_context_window.induct)
  case (1 s)
  show ?case
  proof (cases "int (length (history s)) > max_messages (config s)")
    case False
    then show ?thesis by (subst manage_context_window.simps) simp
  next
    case True
    with "1.prems" obtain removed rest where h: "history s = removed # rest"
      by (cases "history s") auto
    from "1.IH"[OF True h] "1.prems" True h show ?thesis
      by (subst manage_context_window.simps) simp
  qed
qed

lemma manage_context_window_negative:
  "max_messages (config s) < 0 \<Longrightarrow> fst (manage_context_window s) = Inl IndexError"
proof (induction s rule: manage_context_window.induct)
  case (1 s)
  show ?case
  proof (cases "history s")
    case Nil
    with "1.prems" show ?thesis by (subst manage_context_window.simps) simp
  next
    case (Cons removed rest)
    with "1.prems" have gt: "int (length (history s)) > max_messages (config s)" by simp
    from "1.IH"[OF gt Cons] "1.prems" gt Cons show ?thesis
      by (subst manage_context_window.simps) simp
  qed
qed

lemma add_message_config:
  "add_message now r c tk s = (res, s') \<Longrightarrow> config s' = config s"
  by (auto simp: add_message_def Let_def dest!: manage_context_window_config
           split: option.splits if_splits)

lemma add_message_bound:
  "add_message now r c tk s = (Inr u, s') \<Longrightarrow> int (length (history s')) \<le> max_messages (config s')"
  unfolding add_message_def Let_def by (rule manage_context_window_bound)

lemma add_message_tokens:
  "add_message now r c tk s = (res, s') \<Longrightarrow> total_tokens s = known_tokens (history s)
     \<Longrightarrow> total_tokens s' = known_tokens (history s')"
  unfolding add_message_def Let_def
  by (erule manage_context_window_tokens)
     (auto simp: known_tokens_def split: option.splits)

lemma add_message_total:
  "0 \<le> max_messages (config s) \<Longrightarrow> fst (add_message now r c tk s) = Inr ()"
  unfolding add_message_def Let_def
  by (rule manage_context_window_total) (auto split: option.splits)

lemma add_message_negative:
  "max_messages (config s) < 0 \<Longrightarrow> fst (add_message now r c tk s) = Inl IndexError"
  unfolding add_message_def Let_def
  by (rule manage_context_window_negative) (auto split: option.splits)

lemma add_messages_invariant:
  "add_messages s calls = (Inr u, s') \<Longrightarrow> calls \<noteq> []
     \<Longrightarrow> total_tokens s = known_tokens (history s)
     \<Longrightarrow> config s' = config s \<and> int (length (history s')) \<le> max_messages (config s')
         \<and> total_tokens s' = known_tokens (history s')"
proof (induction calls arbitrary: s)
  case Nil
  then show ?case by simp
next
  case (Cons call calls)
  obtain now r c tk where call: "call = (now, r, c, tk)" by (cases call) auto
  from Cons.prems(1) call obtain u1 s1 where
    s1: "add_message now r c tk s = (Inr u1, s1)" and rest: "add_messages s1 calls = (Inr u, s')"
    by (auto split: prod.splits sum.splits)
  note b1 = add_message_bound[OF s1] and t1 = add_message_tokens[OF s1 Cons.prems(3)]
    and c1 = add_message_config[OF s1]
  show ?case
  proof (cases "calls = []")
    case True
    with rest b1 t1 c1 show ?thesis by auto
  next
    case False
    from Cons.IH[OF rest False t1] c1 show ?thesis by auto
  qed
qed

lemma add_messages_total:
  "0 \<le> max_messages (config s) \<Longrightarrow> fst (add_messages s calls) = Inr ()"
proof (induction calls arbitrary: s)
  case Nil
  then show ?case by simp
next
  case (Cons call calls)
  obtain now r c tk where call: "call = (now, r, c, tk)" by (cases call) auto
  obtain res s1 where s1: "add_message now r c tk s = (res, s1)" by (cases "add_message now r c tk s")
  with add_message_total[OF Cons.prems, of now r c tk] have "res = Inr ()" by simp
  with s1 Cons.IH[of s1] Cons.prems add_message_config[OF s1] call show ?case by simp
qed

lemma add_messages_negative:
  "max_messages (config s) < 0 \<Longrightarrow> calls \<noteq> [] \<Longrightarrow> fst (add_messages s calls) = Inl IndexError"
proof (cases calls)
  case Nil
  assume "calls \<noteq> []"
  with Nil show ?thesis by simp
next
  case (Cons call rest)
  assume neg: "max_messages (config s) < 0"
  obtain now r c tk where call: "call = (now, r, c, tk)" by (cases call) auto
  obtain res s1 where s1: "add_message now r c tk s = (res, s1)" by (cases "add_message now r c tk s")
  with add_message_negative[OF neg, of now r c tk] have "res = Inl IndexError" by simp
  with s1 Cons call show ?thesis by simp
qed

text \<open>
  Claim C2.  Take any sequence of \<open>add_message\<close> calls on a fresh conversation window.
  When \<open>max_messages\<close> is not negative every call of the sequence completes; when it is
  negative the first call raises \<open>IndexError\<close>, so no append completes.  Whenever the
  sequence (of at least one call) has completed, the history holds at most \<open>max_messages\<close>
  messages and the running token total is the sum of the known token counts of the
  messages still in the history.  The sequence is arbitrary, so this is the state after
  each append of a longer one.
\<close>

theorem add_messages_window_invariant:
  assumes "add_messages (ConversationContext_init cfg) calls = (res, s)"
  shows "(0 \<le> max_messages cfg \<longrightarrow> res = Inr ()) \<and>
         (max_messages cfg < 0 \<and> calls \<noteq> [] \<longrightarrow> res = Inl IndexError) \<and>
         (res = Inr () \<and> calls \<noteq> [] \<longrightarrow>
            int (length (history s)) \<le> max_messages cfg \<and>
            total_tokens s = known_tokens (history s))"
proof -
  let ?init = "ConversationContext_init cfg"
  have cfg: "config ?init = cfg" and tok: "total_tokens ?init = known_tokens (history ?init)"
    by (simp_all add: ConversationContext_init_def known_tokens_def)
  have "0 \<le> max_messages cfg \<longrightarrow> res = Inr ()"
    using add_messages_total[of ?init calls] assms cfg by simp
  moreover have "max_messages cfg < 0 \<and> calls \<noteq> [] \<longrightarrow> res = Inl IndexError"
    using add_messages_negative[of ?init calls] assms cfg by simp
  moreover have "res = Inr () \<and> calls \<noteq> [] \<longrightarrow>
            int (length (history s)) \<le> max_messages cfg \<and>
            total_tokens s = known_tokens (history s)"
    using add_messages_invariant[of ?init calls "()" s] assms cfg tok by auto
  ultimately show ?thesis by blast
qed

text \<open>
  Three appends on a window of capacity two: the first message, of 5 tokens, is evicted,
  and the total is the 7 tokens of the one retained message whose count is known.
\<close>

theorem add_messages_window_invariant_witness:
  "fst (add_messages (ConversationContext_init (window_cfg 2)) three_appends) = Inr () \<and>
   map content (history (snd (add_messages (ConversationContext_init (window_cfg 2)) three_appends)))
     = [''salve'', ''grazie''] \<and>
   int (length (history (snd (add_messages (ConversationContext_init (window_cfg 2)) three_appends))))
     \<le> max_messages (window_cfg 2) \<and>
   total_tokens (snd (add_messages (ConversationContext_init (window_cfg 2)) three_appends)) = 7 \<and>
   known_tokens (history (snd (add_messages (ConversationContext_init (window_cfg 2)) three_appends))) = 7"
  using add_messages_window_invariant
    [of "window_cfg 2" three_appends
        "fst (add_messages (ConversationContext_init (window_cfg 2)) three_appends)"
        "snd (add_messages (ConversationContext_init (window_cfg 2)) three_appends)"]
  by (simp add: three_appends_def window_cfg_def ConversationContext_init_def add_message_def
        manage_context_window.simps known_tokens_def)

lemma add_system_prompt_length:
  "length (history (add_system_prompt now prompt s)) = Suc (length (history s)) \<and>
   config (add_system_prompt now prompt s) = config s"
  by (simp add: add_system_prompt_def)

lemma clear_bound:
  "0 \<le> max_messages (config s) \<Longrightarrow> int (length (history (clear s))) \<le> max_messages (config (clear s))"
  by (simp add: clear_def)

text \<open>
  Claim C8.  \<open>add_system_prompt\<close> inserts at the front and never calls
  \<open>_manage_context_window\<close>, which \<open>add_message\<close> does after its own insertion.  On a window
  of capacity one that holds one message it leaves two messages: the history is longer
  than \<open>max_messages\<close> when the mutation has completed.
\<close>

theorem add_system_prompt_exceeds_window:
  "int (length (history full_window)) = 1 \<and>
   max_messages (config full_window) = 1 \<and>
   int (length (history (add_system_prompt 2 ''Sei un assistente'' full_window))) = 2 \<and>
   max_messages (config (add_system_prompt 2 ''Sei un assistente'' full_window)) = 1"
  by (simp add: full_window_def window_cfg_def ConversationContext_init_def add_message_def
        manage_context_window.simps add_system_prompt_def)

lemma get_messages_last_n:
  "0 < n \<Longrightarrow> get_messages s (Some n) = drop (length (history s) - nat n) (history s)"
  by (simp add: get_messages_def)

lemma get_messages_all: "get_messages s None = history s"
  by (simp add: get_messages_def)

text \<open>
  Claim C9.  \<open>get_messages(0)\<close>: the test \<open>if last_n:\<close> takes \<open>0\<close> for an absent argument,
  so on a history of two messages the call returns both of them, where the last zero
  messages are none.  (For \<open>n > 0\<close> the result is the last \<open>n\<close> messages, see
  \<open>get_messages_last_n\<close>, and no call changes the history.)
\<close>

theorem get_messages_zero_returns_all:
  "map content (history two_messages) = [''ciao'', ''salve''] \<and>
   map content (get_messages two_messages (Some 0)) = [''ciao'', ''salve'']"
  by (simp add: two_messages_def window_cfg_def ConversationContext_init_def add_message_def
        manage_context_window.simps get_messages_def)

section \<open>Properties of the semantic cache\<close>

lemma cosine_similarity_mismatch:
  "length emb1 \<noteq> length emb2 \<Longrightarrow> cosine_similarity np emb1 emb2 = Inl ValueError"
  by (simp add: cosine_similarity_def)

lemma np_multiply_zero:
  "np_multiply rnd (Fin 0) y = Fin 0 \<or> np_multiply rnd (Fin 0) y = NaN"
  "np_multiply rnd x (Fin 0) = Fin 0 \<or> np_multiply rnd x (Fin 0) = NaN"
  by (cases y; simp) (cases x; simp)

lemma np_divide_by_zero:
  "np_divide rnd x (Fin 0) = NaN \<or> np_divide rnd x (Fin 0) = PosInf \<or>
   np_divide rnd x (Fin 0) = NegInf"
  by (cases x) (auto simp: np_inf_def)

lemma np_divide_by_nan: "np_divide rnd x NaN = NaN"
  by (cases x) simp_all

lemma np_divide_zero_by_zero: "np_divide rnd (Fin 0) (Fin 0) = NaN"
  by simp

text \<open>
  Claim C4, as amended.  For two vectors of the same length the result is the float64
  quotient of \<open>np.dot\<close> by the float64 product of the two norms, whatever these are: the
  divisor is not tested.  When a computed norm is zero, the divisor is zero or \<open>nan\<close> and
  the result is \<open>nan\<close> or an infinity, never \<open>0\<close>; it is \<open>nan\<close> when the dot product is zero
  as well, as it is for a vector of zeros.  When the dot product and the product of the
  norms are finite and not zero, the result is their quotient, rounded.
\<close>

theorem cosine_similarity_cases:
  assumes "length emb1 = length emb2"
  shows "cosine_similarity np emb1 emb2 =
           Inr (np_divide (round64 np) (np_dot np emb1 emb2)
                  (np_multiply (round64 np) (linalg_norm np emb1) (linalg_norm np emb2))) \<and>
         (linalg_norm np emb1 = Fin 0 \<or> linalg_norm np emb2 = Fin 0 \<longrightarrow>
            (cosine_similarity np emb1 emb2 = Inr NaN \<or>
             cosine_similarity np emb1 emb2 = Inr PosInf \<or>
             cosine_similarity np emb1 emb2 = Inr NegInf) \<and>
            (np_dot np emb1 emb2 = Fin 0 \<longrightarrow> cosine_similarity np emb1 emb2 = Inr NaN)) \<and>
         (\<forall>x d. np_dot np emb1 emb2 = Fin x \<and> x \<noteq> 0 \<and> d \<noteq> 0 \<and>
            np_multiply (round64 np) (linalg_norm np emb1) (linalg_norm np emb2) = Fin d \<longrightarrow>
            cosine_similarity np emb1 emb2 = Inr (round64 np (x / d)))"
proof -
  let ?dot = "np_dot np emb1 emb2"
  let ?den = "np_multiply (round64 np) (linalg_norm np emb1) (linalg_norm np emb2)"
  have eq: "cosine_similarity np emb1 emb2 = Inr (np_divide (round64 np) ?dot ?den)"
    using assms by (simp add: cosine_similarity_def)
  have zero: "(np_divide (round64 np) ?dot ?den = NaN \<or>
               np_divide (round64 np) ?dot ?den = PosInf \<or>
               np_divide (round64 np) ?dot ?den = NegInf) \<and>
              (?dot = Fin 0 \<longrightarrow> np_divide (round64 np) ?dot ?den = NaN)"
    if "linalg_norm np emb1 = Fin 0 \<or> linalg_norm np emb2 = Fin 0"
  proof -
    from that have "?den = Fin 0 \<or> ?den = NaN"
    proof
      assume "linalg_norm np emb1 = Fin 0"
      then show ?thesis
        using np_multiply_zero(1)[of "round64 np" "linalg_norm np emb2"] by simp
    next
      assume "linalg_norm np emb2 = Fin 0"
      then show ?thesis
        using np_multiply_zero(2)[of "round64 np" "linalg_norm np emb1"] by simp
    qed
    then show ?thesis
    proof
      assume d: "?den = Fin 0"
      show ?thesis
        unfolding d using np_divide_by_zero[of "round64 np" ?dot] by auto
    next
      assume d: "?den = NaN"
      show ?thesis unfolding d by (simp add: np_divide_by_nan)
    qed
  qed
  have regular: "np_divide (round64 np) ?dot ?den = round64 np (x / d)"
    if "?dot = Fin x \<and> x \<noteq> 0 \<and> d \<noteq> 0 \<and> ?den = Fin d" for x d
    using that by simp
  from eq zero regular show ?thesis by simp
qed

text \<open>
  A vector of zeros against a unit vector: \<open>nan\<close>.  Two orthogonal unit vectors: a zero dot
  product over a divisor that is not zero, \<open>0\<close>.  A unit vector against itself: \<open>1\<close>.
\<close>

theorem cosine_similarity_cases_witness:
  "linalg_norm exact_numpy [Fin 0, Fin 0] = Fin 0 \<and>
   cosine_similarity exact_numpy [Fin 0, Fin 0] [Fin 0, Fin 1] = Inr NaN \<and>
   cosine_similarity exact_numpy [Fin 1, Fin 0] [Fin 0, Fin 1] = Inr (Fin 0) \<and>
   cosine_similarity exact_numpy [Fin 1, Fin 0] [Fin 1, Fin 0] = Inr (Fin 1)"
proof -
  have len: "length [Fin 0, Fin 0] = length [Fin 0, Fin 1]"
    "length [Fin 1, Fin 0] = length [Fin 0, Fin 1]"
    "length [Fin 1, Fin 0] = length [Fin 1, Fin 0]"
    by simp_all
  show ?thesis
    using cosine_similarity_cases[OF len(1), of exact_numpy]
      cosine_similarity_cases[OF len(2), of exact_numpy]
      cosine_similarity_cases[OF len(3), of exact_numpy]
    by (simp add: exact_numpy_def)
qed

text \<open>The claim as stated fails on a zero vector: the result is \<open>nan\<close>.\<close>

theorem cosine_similarity_zero_norm_counterexample:
  "linalg_norm exact_numpy [Fin 0, Fin 0] = Fin 0 \<and>
   cosine_similarity exact_numpy [Fin 0, Fin 0] [Fin 1, Fin 0] = Inr NaN \<and>
   cosine_similarity exact_numpy [Fin 0, Fin 0] [Fin 1, Fin 0] \<noteq> Inr (Fin 0)"
  by (simp add: cosine_similarity_def exact_numpy_def)

lemma py_take_is_take: "\<exists>n. py_take k xs = take n xs"
  by (auto simp: py_take_def)

lemma set_py_take: "set (py_take k xs) \<subseteq> set xs"
  using py_take_is_take[of k xs] by (auto dest: in_set_takeD)

lemma length_py_take: "0 \<le> k \<Longrightarrow> int (length (py_take k xs)) \<le> k"
  by (simp add: py_take_def)

lemma fresh_entries_iff:
  "entry \<in> set (fresh_entries now sc) \<longleftrightarrow>
     entry \<in> set (cache sc) \<and> now - entry_timestamp entry < ttl sc"
  by (simp add: fresh_entries_def)

lemma cleanup_old_entries_subset:
  "set (cache (cleanup_old_entries now sc)) \<subseteq> set (fresh_entries now sc)"
  using set_py_take[of "max_entries sc" "sort_key (\<lambda>x. - hits x) (fresh_entries now sc)"]
  by (auto simp: cleanup_old_entries_def Let_def)

lemma cleanup_old_entries_fields:
  "ttl (cleanup_old_entries now sc) = ttl sc"
  "threshold (cleanup_old_entries now sc) = threshold sc"
  "max_entries (cleanup_old_entries now sc) = max_entries sc"
  "embeddings_available (cleanup_old_entries now sc) = embeddings_available sc"
  by (simp_all add: cleanup_old_entries_def Let_def)

lemma best_match_loop_index:
  "best_match_loop np th q es i (bm, bs) = Inr (Some j, s) \<Longrightarrow>
     bm = Some j \<or> (i \<le> j \<and> j < i + length es)"
proof (induction es arbitrary: i bm bs)
  case Nil
  then show ?case by simp
next
  case (Cons entry rest)
  from Cons.prems obtain similarity where
    sim: "cosine_similarity np q (embedding entry) = Inr similarity"
    by (auto split: sum.splits)
  show ?case
  proof (cases "np_less bs similarity \<and> np_le (Fin th) similarity")
    case True
    with Cons.prems sim have "best_match_loop np th q rest (Suc i) (Some i, similarity) = Inr (Some j, s)"
      by simp
    from Cons.IH[OF this] show ?thesis by auto
  next
    case False
    with Cons.prems sim have "best_match_loop np th q rest (Suc i) (bm, bs) = Inr (Some j, s)"
      by auto
    from Cons.IH[OF this] show ?thesis by auto
  qed
qed

text \<open>
  Claim C5.  Whatever the cache holds and whatever the query, a response returned by
  \<open>get_cached_response\<close> is the response of an entry whose age is below the TTL; the list
  the similarity search runs over holds no entry of age \<open>ttl\<close> or more, and neither does
  the cache afterwards (when embeddings are available; otherwise nothing is returned).
\<close>

theorem get_cached_response_fresh:
  assumes "get_cached_response np enc now q sc = (res, sc')"
  shows "(\<forall>answer. res = Inr (Some answer) \<longrightarrow>
            (\<exists>entry\<in>set (cache sc). response entry = answer \<and> now - entry_timestamp entry < ttl sc)) \<and>
         (\<forall>entry\<in>set (cache (cleanup_old_entries now sc)). now - entry_timestamp entry < ttl sc) \<and>
         (embeddings_available sc \<longrightarrow>
            (\<forall>entry\<in>set (cache sc'). now - entry_timestamp entry < ttl sc))"
proof -
  let ?sc1 = "cleanup_old_entries now sc"
  have searched: "\<forall>entry\<in>set (cache ?sc1). entry \<in> set (cache sc) \<and> now - entry_timestamp entry < ttl sc"
    using cleanup_old_entries_subset[of now sc] by (auto simp: fresh_entries_iff)
  have hit: "\<exists>entry\<in>set (cache sc). response entry = answer \<and> now - entry_timestamp entry < ttl sc"
    if "res = Inr (Some answer)" for answer
  proof -
    from assms that obtain qe j s where
      loop: "best_match_loop np (threshold ?sc1) qe (cache ?sc1) 0 (None, Fin 0) = Inr (Some j, s)"
      and answer: "answer = response (cache ?sc1 ! j)"
      by (auto simp: get_cached_response_def Let_def
               split: if_splits option.splits sum.splits prod.splits)
    from best_match_loop_index[OF loop] have "j < length (cache ?sc1)" by simp
    then have "cache ?sc1 ! j \<in> set (cache ?sc1)" by simp
    with searched answer show ?thesis by blast
  qed
  have after: "\<forall>entry\<in>set (cache sc'). now - entry_timestamp entry < ttl sc"
    if avail: "embeddings_available sc"
  proof (cases "\<exists>qe j s. get_embedding enc ?sc1 q = Some qe \<and>
      best_match_loop np (threshold ?sc1) qe (cache ?sc1) 0 (None, Fin 0) = Inr (Some j, s)")
    case False
    with assms avail have "sc' = ?sc1"
      by (auto simp: get_cached_response_def Let_def
               split: if_splits option.splits sum.splits prod.splits)
    with searched show ?thesis by simp
  next
    case True
    then obtain qe j s where emb: "get_embedding enc ?sc1 q = Some qe" and
      loop: "best_match_loop np (threshold ?sc1) qe (cache ?sc1) 0 (None, Fin 0) = Inr (Some j, s)"
      by blast
    let ?best = "cache ?sc1 ! j"
    from assms avail emb loop have sc': "cache sc' = (cache ?sc1)[j := ?best\<lparr>hits := hits ?best + 1\<rparr>]"
      by (auto simp: get_cached_response_def Let_def)
    from best_match_loop_index[OF loop] have "j < length (cache ?sc1)" by simp
    then have best: "?best \<in> set (cache ?sc1)" by simp
    show ?thesis
    proof
      fix entry assume "entry \<in> set (cache sc')"
      with sc' have "entry = ?best\<lparr>hits := hits ?best + 1\<rparr> \<or> entry \<in> set (cache ?sc1)"
        using set_update_subset_insert[of "cache ?sc1" j] by auto
      with searched best show "now - entry_timestamp entry < ttl sc" by auto
    qed
  qed
  from hit searched after show ?thesis by blast
qed

text \<open>
  An entry exactly as old as the TTL, with the embedding of the query (similarity 1):
  it is pruned and the lookup misses.  One time unit earlier it is returned.
\<close>

theorem get_cached_response_fresh_witness:
  "cosine_similarity exact_numpy [Fin 1, Fin 0] [Fin 1, Fin 0] = Inr (Fin 1) \<and>
   get_cached_response exact_numpy unit_encode 24 ''ciao'' one_entry_cache
     = (Inr None, one_entry_cache\<lparr>cache := []\<rparr>) \<and>
   fst (get_cached_response exact_numpy unit_encode 23 ''ciao'' one_entry_cache) = Inr (Some ''salve'') \<and>
   map hits (cache (snd (get_cached_response exact_numpy unit_encode 23 ''ciao'' one_entry_cache))) = [4]"
proof -
  have miss: "get_cached_response exact_numpy unit_encode 24 ''ciao'' one_entry_cache
      = (Inr None, one_entry_cache\<lparr>cache := []\<rparr>)"
    by (simp add: get_cached_response_def cleanup_old_entries_def fresh_entries_def
          get_embedding_def unit_encode_def one_entry_cache_def)
  show ?thesis
    using get_cached_response_fresh[OF miss]
    by (simp add: get_cached_response_def cleanup_old_entries_def fresh_entries_def
          get_embedding_def unit_encode_def one_entry_cache_def cosine_similarity_def
          exact_numpy_def)
qed

lemma sorted_take_drop:
  assumes "sorted (map f xs)" "r \<in> set (take n xs)" "d \<in> set (drop n xs)"
  shows "f r \<le> f d"
proof -
  have "sorted (map f (take n xs) @ map f (drop n xs))"
    using assms(1) by (simp flip: map_append)
  with assms(2,3) show ?thesis by (auto simp: sorted_append)
qed

text \<open>
  Claim C7, as amended.  When \<open>max_entries\<close> is not negative, \<open>_cleanup_old_entries\<close> leaves
  at most \<open>max_entries\<close> entries.  The entries it keeps are among those that passed the TTL
  filter, and every kept entry has at least as many hits as every entry that passed the
  TTL filter and was discarded by the capacity trimming.
\<close>

theorem cleanup_old_entries_capacity:
  assumes "0 \<le> max_entries sc"
  shows "int (length (cache (cleanup_old_entries now sc))) \<le> max_entries sc \<and>
         mset (cache (cleanup_old_entries now sc)) \<subseteq># mset (fresh_entries now sc) \<and>
         (\<forall>r\<in>set (cache (cleanup_old_entries now sc)).
            \<forall>d\<in>#mset (fresh_entries now sc) - mset (cache (cleanup_old_entries now sc)).
              hits d \<le> hits r)"
proof (cases "int (length (fresh_entries now sc)) > max_entries sc")
  case False
  then show ?thesis by (simp add: cleanup_old_entries_def)
next
  case True
  let ?S = "sort_key (\<lambda>x. - hits x) (fresh_entries now sc)"
  obtain n where n: "py_take (max_entries sc) ?S = take n ?S"
    using py_take_is_take by blast
  from True have c: "cache (cleanup_old_entries now sc) = take n ?S"
    by (simp add: cleanup_old_entries_def n)
  have split: "mset (take n ?S) + mset (drop n ?S) = mset (fresh_entries now sc)"
    by (metis append_take_drop_id mset_append mset_sort)
  then have diff: "mset (fresh_entries now sc) - mset (take n ?S) = mset (drop n ?S)"
    by (metis add_diff_cancel_left')
  have sub: "mset (take n ?S) \<subseteq># mset (fresh_entries now sc)"
    using split by (metis mset_subset_eq_add_left)
  have len: "int (length (take n ?S)) \<le> max_entries sc"
    using length_py_take[OF assms, of ?S] n by simp
  have ord: "hits d \<le> hits r" if "r \<in> set (take n ?S)" "d \<in> set (drop n ?S)" for r d
    using sorted_take_drop[of "\<lambda>x. - hits x" ?S r n d] that by simp
  from len sub ord show ?thesis unfolding c diff by auto
qed

theorem cleanup_old_entries_capacity_witness:
  "map hits (fresh_entries 30 crowded_cache) = [1, 5, 3] \<and>
   map hits (cache (cleanup_old_entries 30 crowded_cache)) = [5, 3] \<and>
   int (length (cache (cleanup_old_entries 30 crowded_cache))) \<le> max_entries crowded_cache"
proof -
  have capacity: "0 \<le> max_entries crowded_cache"
    by (simp add: crowded_cache_def)
  show ?thesis
    using cleanup_old_entries_capacity[OF capacity, of 30]
    by (simp add: cleanup_old_entries_def fresh_entries_def crowded_cache_def
          entry_with_hits_def py_take_def)
qed

text \<open>
  With \<open>max_entries = -1\<close> the slice \<open>[:-1]\<close> drops the last entry only: the cache ends
  with zero entries, which is more than \<open>max_entries\<close>.
\<close>

theorem cleanup_old_entries_capacity_counterexample:
  "cache (cleanup_old_entries 1 negative_capacity_cache) = [] \<and>
   \<not> int (length (cache (cleanup_old_entries 1 negative_capacity_cache)))
       \<le> max_entries negative_capacity_cache"
  by (simp add: cleanup_old_entries_def fresh_entries_def negative_capacity_cache_def
        entry_with_hits_def py_take_def)

section \<open>Properties of the routing policy\<close>

text \<open>
  Claim C6.  \<open>_smart_route_model\<close> is a function of the prompt (and of \<open>str.lower\<close>): it
  answers the reasoning tier exactly when some reasoning keyword is a substring of the
  lowercased prompt, and the fast tier otherwise, whether or not a simple keyword
  matches.  Two prompts with the same lowercased form get the same answer.  When
  lowercasing works character by character (\<open>lower = map f\<close>, as it does on ASCII text),
  a prompt that contains any spelling of a reasoning keyword, in whatever letter case, is
  routed to the reasoning tier.
\<close>

theorem smart_route_model_tiers:
  "smart_route_model lower prompt =
     (if \<exists>keyword\<in>set reasoning_keywords. sublist keyword (lower prompt)
      then ''deepseek-reasoner'' else ''deepseek-chat'') \<and>
   (lower prompt = lower prompt' \<longrightarrow>
      smart_route_model lower prompt = smart_route_model lower prompt') \<and>
   (\<forall>variant. sublist variant prompt \<and> map f variant \<in> set reasoning_keywords \<longrightarrow>
      smart_route_model (map f) prompt = ''deepseek-reasoner'')"
proof -
  have tier: "smart_route_model l p =
     (if \<exists>keyword\<in>set reasoning_keywords. sublist keyword (l p)
      then ''deepseek-reasoner'' else ''deepseek-chat'')" for l p
    by (simp add: smart_route_model_def Let_def list_ex_iff)
  have same: "lower prompt = lower prompt' \<longrightarrow>
      smart_route_model lower prompt = smart_route_model lower prompt'"
    by (simp add: tier)
  have spelled: "smart_route_model (map f) prompt = ''deepseek-reasoner''"
    if "sublist variant prompt \<and> map f variant \<in> set reasoning_keywords" for variant
  proof -
    from that have "sublist (map f variant) (map f prompt)"
      by (simp add: map_mono_sublist)
    with that have "\<exists>keyword\<in>set reasoning_keywords. sublist keyword (map f prompt)"
      by blast
    then show ?thesis by (simp add: tier)
  qed
  from tier[of lower prompt] same spelled show ?thesis by blast
qed

theorem smart_route_model_tiers_witness:
  "smart_route_model ascii_lower ''ANALIZZA i dati'' = ''deepseek-reasoner'' \<and>
   smart_route_model ascii_lower ''analizza I DATI'' = ''deepseek-reasoner'' \<and>
   smart_route_model ascii_lower ''Traduci e poi Calcola'' = ''deepseek-reasoner'' \<and>
   smart_route_model (map ascii_lower_char) ''Per favore AnaLizza i dati'' = ''deepseek-reasoner'' \<and>
   smart_route_model ascii_lower ''Traduci questo'' = ''deepseek-chat'' \<and>
   smart_route_model ascii_lower ''Buongiorno'' = ''deepseek-chat''"
proof -
  have same: "ascii_lower ''ANALIZZA i dati'' = ascii_lower ''analizza I DATI''"
    by (simp add: ascii_lower_def ascii_lower_char_def)
  have spelled: "sublist ''AnaLizza'' ''Per favore AnaLizza i dati'' \<and>
      map ascii_lower_char ''AnaLizza'' \<in> set reasoning_keywords"
    by (simp add: ascii_lower_char_def reasoning_keywords_def sublist_code)
  show ?thesis
    using smart_route_model_tiers[of ascii_lower "''ANALIZZA i dati''" "''analizza I DATI''"]
      smart_route_model_tiers
        [of "map ascii_lower_char" "''Per favore AnaLizza i dati''" "[]" ascii_lower_char]
      same spelled
    by (simp add: smart_route_model_def ascii_lower_def ascii_lower_char_def
          reasoning_keywords_def simple_keywords_def sublist_code)
qed

section \<open>Properties of the failover executor\<close>

lemma retry_loop_Some:
  "retry_loop p m prm mr atts st w = (Some r, st', w') \<Longrightarrow>
     (\<exists>w1. provider_chat p w1 m prm = (Inr r, w')) \<and> successes st' = successes st + 1"
proof (induction atts arbitrary: st w)
  case Nil
  then show ?case by simp
next
  case (Cons attempt rest)
  obtain out w1 where c: "provider_chat p w m prm = (out, w1)"
    by (cases "provider_chat p w m prm")
  show ?case
  proof (cases out)
    case (Inr resp)
    with Cons.prems c show ?thesis by (auto simp: Let_def)
  next
    case (Inl e)
    let ?st2 = "st\<lparr>requests := requests st + 1, failures := failures st + 1\<rparr>"
    from Cons.prems c Inl have "retry_loop p m prm mr rest ?st2 w1 = (Some r, st', w')"
      by (auto simp: Let_def split: if_splits)
    from Cons.IH[OF this] show ?thesis by simp
  qed
qed

lemma retry_loop_None:
  "retry_loop p m prm mr [k..<nat mr] st w = (None, st', w') \<Longrightarrow> k \<le> nat mr \<Longrightarrow>
     st' = failed_attempts (nat mr - k) st"
proof (induction "nat mr - k" arbitrary: k st w)
  case 0
  then have "[k..<nat mr] = []" by simp
  with "0.prems" "0.hyps" show ?case by (simp add: failed_attempts_def)
next
  case (Suc d)
  then have lt: "k < nat mr" by simp
  then have upt: "[k..<nat mr] = k # [Suc k..<nat mr]" by (rule upt_conv_Cons)
  obtain out w1 where c: "provider_chat p w m prm = (out, w1)"
    by (cases "provider_chat p w m prm")
  let ?st2 = "st\<lparr>requests := requests st + 1, failures := failures st + 1\<rparr>"
  show ?case
  proof (cases out)
    case (Inr resp)
    with Suc.prems(1) c upt show ?thesis by (simp add: Let_def)
  next
    case (Inl e)
    show ?thesis
    proof (cases "int k < mr - 1")
      case True
      with Suc.prems(1) c upt Inl have
        rec: "retry_loop p m prm mr [Suc k..<nat mr] ?st2 w1 = (None, st', w')"
        by (simp add: Let_def)
      have d: "d = nat mr - Suc k" using Suc.hyps(2) by simp
      from Suc.hyps(1)[OF d rec] lt have "st' = failed_attempts (nat mr - Suc k) ?st2" by simp
      moreover have "nat mr - k = Suc (nat mr - Suc k)" using lt by simp
      ultimately show ?thesis by (simp add: failed_attempts_def)
    next
      case False
      with Suc.prems(1) c upt Inl have "st' = ?st2" by (simp add: Let_def)
      moreover from False lt have "nat mr - k = 1" by simp
      ultimately show ?thesis by (simp add: failed_attempts_def)
    qed
  qed
qed

lemma failed_attempts_add:
  "failed_attempts a (failed_attempts b st) = failed_attempts (a + b) st"
  by (simp add: failed_attempts_def)

lemma successes_failed_attempts [simp]: "successes (failed_attempts n st) = successes st"
  by (simp add: failed_attempts_def)

lemma fallback_loop_cases:
  "\<forall>p\<in>set ps. is_available p \<longrightarrow> pstats (name p) \<noteq> None \<Longrightarrow>
     fst (fallback_loop ps m prm mr pstats w) = Inl AllProvidersFailedException \<or>
     (\<exists>r. fst (fallback_loop ps m prm mr pstats w) = Inr r)"
proof (induction ps arbitrary: pstats w)
  case Nil
  then show ?case by simp
next
  case (Cons p rest)
  show ?case
  proof (cases "is_available p")
    case False
    with Cons show ?thesis by simp
  next
    case True
    with Cons.prems obtain st where st: "pstats (name p) = Some st" by auto
    obtain out st' w1 where r: "retry_loop p m prm mr [0..<nat mr] st w = (out, st', w1)"
      by (cases "retry_loop p m prm mr [0..<nat mr] st w")
    show ?thesis
    proof (cases out)
      case (Some resp)
      with True st r show ?thesis by simp
    next
      case None
      have reg: "\<forall>q\<in>set rest. is_available q \<longrightarrow> (pstats(name p \<mapsto> st')) (name q) \<noteq> None"
        using Cons.prems by auto
      have step: "fallback_loop (p # rest) m prm mr pstats w
                    = fallback_loop rest m prm mr (pstats(name p \<mapsto> st')) w1"
        using True st r None by simp
      show ?thesis unfolding step by (rule Cons.IH[OF reg])
    qed
  qed
qed

lemma fallback_loop_failed:
  "fallback_loop ps m prm mr pstats w = (Inl AllProvidersFailedException, pstats', w') \<Longrightarrow>
   \<forall>p\<in>set ps. is_available p \<longrightarrow> pstats (name p) \<noteq> None \<Longrightarrow>
     pstats' n = map_option (failed_attempts (nat mr * available_named n ps)) (pstats n)"
proof (induction ps arbitrary: pstats w)
  case Nil
  then show ?case
    by (cases "pstats n") (auto simp: available_named_def failed_attempts_def)
next
  case (Cons p rest)
  show ?case
  proof (cases "is_available p")
    case False
    with Cons.prems have "fallback_loop rest m prm mr pstats w = (Inl AllProvidersFailedException, pstats', w')"
      by simp
    from Cons.IH[OF this] Cons.prems(2) False show ?thesis
      by (simp add: available_named_def)
  next
    case True
    with Cons.prems obtain st where st: "pstats (name p) = Some st" by auto
    obtain out st' w1 where r: "retry_loop p m prm mr [0..<nat mr] st w = (out, st', w1)"
      by (cases "retry_loop p m prm mr [0..<nat mr] st w")
    with Cons.prems(1) True st have out: "out = None"
      by (cases out) auto
    from retry_loop_None[of p m prm mr 0 st w st' w1] r out
    have st': "st' = failed_attempts (nat mr) st" by simp
    let ?ps1 = "pstats(name p \<mapsto> st')"
    from Cons.prems(1) True st r out have
      rec: "fallback_loop rest m prm mr ?ps1 w1 = (Inl AllProvidersFailedException, pstats', w')"
      by simp
    have reg: "\<forall>q\<in>set rest. is_available q \<longrightarrow> ?ps1 (name q) \<noteq> None"
      using Cons.prems(2) by auto
    note IH = Cons.IH[OF rec reg]
    show ?thesis
    proof (cases "n = name p")
      case True
      with IH st st' \<open>is_available p\<close> show ?thesis
        by (simp add: available_named_def failed_attempts_add algebra_simps)
    next
      case False
      with IH show ?thesis by (simp add: available_named_def)
    qed
  qed
qed

lemma fallback_loop_success:
  "fallback_loop ps m prm mr pstats w = (Inr r, pstats', w') \<Longrightarrow>
     (\<exists>p\<in>set ps. is_available p \<and> (\<exists>w1. provider_chat p w1 m prm = (Inr r, w'))) \<and>
     (\<exists>n st st'. pstats n = Some st \<and> pstats' n = Some st' \<and> successes st' = successes st + 1)"
proof (induction ps arbitrary: pstats w)
  case Nil
  then show ?case by simp
next
  case (Cons p rest)
  show ?case
  proof (cases "is_available p")
    case False
    with Cons.prems have "fallback_loop rest m prm mr pstats w = (Inr r, pstats', w')" by simp
    from Cons.IH[OF this] show ?thesis by auto
  next
    case True
    with Cons.prems obtain st where st: "pstats (name p) = Some st"
      by (cases "pstats (name p)") auto
    obtain out st' w1 where rl: "retry_loop p m prm mr [0..<nat mr] st w = (out, st', w1)"
      by (cases "retry_loop p m prm mr [0..<nat mr] st w")
    show ?thesis
    proof (cases out)
      case (Some resp)
      with Cons.prems True st rl have eq: "resp = r" "pstats' = pstats(name p \<mapsto> st')" "w1 = w'"
        by auto
      from retry_loop_Some[of p m prm mr "[0..<nat mr]" st w resp st' w1] rl Some eq
      have "(\<exists>w0. provider_chat p w0 m prm = (Inr r, w')) \<and> successes st' = successes st + 1"
        by simp
      with True st eq show ?thesis by auto
    next
      case None
      from retry_loop_None[of p m prm mr 0 st w st' w1] rl None
      have st': "st' = failed_attempts (nat mr) st" by simp
      let ?ps1 = "pstats(name p \<mapsto> st')"
      from Cons.prems True st rl None have
        rec: "fallback_loop rest m prm mr ?ps1 w1 = (Inr r, pstats', w')" by simp
      from Cons.IH[OF rec] obtain n s1 s2 where
        prov: "\<exists>q\<in>set rest. is_available q \<and> (\<exists>w0. provider_chat q w0 m prm = (Inr r, w'))"
        and n: "?ps1 n = Some s1" "pstats' n = Some s2" "successes s2 = successes s1 + 1"
        by blast
      have "\<exists>s0. pstats n = Some s0 \<and> successes s0 = successes s1"
      proof (cases "n = name p")
        case True
        with n(1) st st' show ?thesis by auto
      next
        case False
        with n(1) show ?thesis by auto
      qed
      then obtain s0 where s0: "pstats n = Some s0" "successes s0 = successes s1" by blast
      have "\<exists>k a b. pstats k = Some a \<and> pstats' k = Some b \<and> successes b = successes a + 1"
        using s0 n(2,3) by (intro exI[of _ n] exI[of _ s0] exI[of _ s2]) simp
      with prov show ?thesis by auto
    qed
  qed
qed

lemma fallback_loop_skip:
  "\<forall>u\<in>set us. \<not> is_available u \<Longrightarrow>
     fallback_loop (us @ vs) m prm mr pstats w = fallback_loop vs m prm mr pstats w"
  by (induction us) auto

lemma retry_loop_first_success:
  assumes "0 < mr" "provider_chat p w m prm = (Inr r, w')"
  shows "retry_loop p m prm mr [0..<nat mr] st w
           = (Some r, st\<lparr>requests := requests st + 1, successes := successes st + 1\<rparr>, w')"
proof -
  from assms(1) have "[0..<nat mr] = 0 # [Suc 0..<nat mr]" by (simp add: upt_conv_Cons)
  with assms(2) show ?thesis by (simp add: Let_def)
qed

lemma retry_loop_always_fails:
  assumes "\<forall>w. \<exists>e w'. provider_chat p w m prm = (Inl e, w')"
  shows "\<exists>w'. retry_loop p m prm mr [0..<nat mr] st w = (None, failed_attempts (nat mr) st, w')"
proof -
  obtain out st' w1 where r: "retry_loop p m prm mr [0..<nat mr] st w = (out, st', w1)"
    by (cases "retry_loop p m prm mr [0..<nat mr] st w")
  have "out = None"
  proof (cases out)
    case (Some resp)
    with retry_loop_Some[of p m prm mr "[0..<nat mr]" st w resp st' w1] r
    obtain w0 where "provider_chat p w0 m prm = (Inr resp, w1)" by auto
    with assms show ?thesis by (metis Inl_Inr_False prod.inject)
  qed simp
  with retry_loop_None[of p m prm mr 0 st w st' w1] r show ?thesis by simp
qed

lemma fallback_loop_no_attempts:
  "mr \<le> 0 \<Longrightarrow> \<forall>p\<in>set ps. is_available p \<longrightarrow> pstats (name p) \<noteq> None \<Longrightarrow>
     fallback_loop ps m prm mr pstats w = (Inl AllProvidersFailedException, pstats, w)"
proof (induction ps)
  case Nil
  then show ?case by simp
next
  case (Cons p rest)
  show ?case
  proof (cases "is_available p")
    case False
    with Cons show ?thesis by simp
  next
    case True
    with Cons.prems obtain st where st: "pstats (name p) = Some st" by auto
    then have same: "pstats(name p \<mapsto> st) = pstats" by (rule map_upd_triv)
    from Cons.prems(1) have none: "[0..<nat mr] = []" by simp
    have "fallback_loop (p # rest) m prm mr pstats w
            = fallback_loop rest m prm mr (pstats(name p \<mapsto> st)) w"
      using True st none by simp
    also have "\<dots> = (Inl AllProvidersFailedException, pstats, w)"
      unfolding same using Cons.IH Cons.prems by simp
    finally show ?thesis .
  qed
qed

lemma answers_simps [simp]:
  "answers [] = []"
  "answers (Inl e # os) = answers os"
  "answers (Inr r # os) = r # answers os"
  "answers (xs @ ys) = answers xs @ answers ys"
  by (simp_all add: answers_def)

text \<open>The retry loop makes the calls of \<open>adapter_attempts\<close> and returns their answer.\<close>

lemma retry_loop_attempts:
  "k \<le> nat mr \<Longrightarrow> retry_loop p m prm mr [k..<nat mr] st w = (out, st', w') \<Longrightarrow>
     adapter_attempts p m prm (nat mr - k) w = (os, w2) \<Longrightarrow>
     w2 = w' \<and> answers os = (case out of None \<Rightarrow> [] | Some r \<Rightarrow> [r]) \<and>
     (out = None \<longrightarrow> length os = nat mr - k)"
proof (induction "nat mr - k" arbitrary: k st w os w2)
  case 0
  then have "[k..<nat mr] = []" "nat mr - k = 0" by simp_all
  with "0.prems" show ?case by auto
next
  case (Suc d)
  then have lt: "k < nat mr" by simp
  then have upt: "[k..<nat mr] = k # [Suc k..<nat mr]" by (rule upt_conv_Cons)
  have n: "nat mr - k = Suc (nat mr - Suc k)" using lt by simp
  obtain oc w1 where c: "provider_chat p w m prm = (oc, w1)"
    by (cases "provider_chat p w m prm")
  let ?st2 = "st\<lparr>requests := requests st + 1, failures := failures st + 1\<rparr>"
  show ?case
  proof (cases oc)
    case (Inr resp)
    with Suc.prems(2,3) c upt n show ?thesis by (auto simp: Let_def)
  next
    case (Inl e)
    obtain os1 w3 where rest: "adapter_attempts p m prm (nat mr - Suc k) w1 = (os1, w3)"
      by (cases "adapter_attempts p m prm (nat mr - Suc k) w1")
    with Suc.prems(3) c Inl n have os: "os = Inl e # os1" "w2 = w3" by auto
    show ?thesis
    proof (cases "int k < mr - 1")
      case True
      with Suc.prems(2) c upt Inl have
        rec: "retry_loop p m prm mr [Suc k..<nat mr] ?st2 w1 = (out, st', w')"
        by (simp add: Let_def)
      have d: "d = nat mr - Suc k" using Suc.hyps(2) by simp
      from lt have le: "Suc k \<le> nat mr" by simp
      from Suc.hyps(1)[OF d le rec rest] os n show ?thesis by auto
    next
      case False
      with Suc.prems(2) c upt Inl have res: "out = None" "w' = w1" by (auto simp: Let_def)
      from False lt have "nat mr - Suc k = 0" by simp
      with rest have "os1 = []" "w3 = w1" by auto
      with os res n \<open>nat mr - Suc k = 0\<close> show ?thesis by simp
    qed
  qed
qed

text \<open>The executor makes the calls of \<open>attempt_log\<close>, fails when none of them answered and
  returns the one answer otherwise.\<close>

lemma fallback_loop_log:
  "\<forall>p\<in>set ps. is_available p \<longrightarrow> pstats (name p) \<noteq> None \<Longrightarrow>
   fallback_loop ps m prm mr pstats w = (res, pstats', w') \<Longrightarrow>
   attempt_log ps m prm (nat mr) w = (tr, wl) \<Longrightarrow>
     wl = w' \<and>
     (res = Inl AllProvidersFailedException \<longleftrightarrow> answers tr = []) \<and>
     (\<forall>r. res = Inr r \<longleftrightarrow> answers tr = [r]) \<and>
     (res = Inl AllProvidersFailedException \<longrightarrow>
        length tr = nat mr * length (filter is_available ps))"
proof (induction ps arbitrary: pstats w tr wl)
  case Nil
  then show ?case by auto
next
  case (Cons p rest)
  show ?case
  proof (cases "is_available p")
    case False
    with Cons.prems have
      "\<forall>q\<in>set rest. is_available q \<longrightarrow> pstats (name q) \<noteq> None"
      "fallback_loop rest m prm mr pstats w = (res, pstats', w')"
      "attempt_log rest m prm (nat mr) w = (tr, wl)"
      by simp_all
    from Cons.IH[OF this] False show ?thesis by simp
  next
    case True
    with Cons.prems obtain st where st: "pstats (name p) = Some st" by auto
    obtain out st' w1 where rl: "retry_loop p m prm mr [0..<nat mr] st w = (out, st', w1)"
      by (cases "retry_loop p m prm mr [0..<nat mr] st w")
    obtain os w2 where at: "adapter_attempts p m prm (nat mr) w = (os, w2)"
      by (cases "adapter_attempts p m prm (nat mr) w")
    from retry_loop_attempts[of 0 mr p m prm st w out st' w1 os w2] rl at
    have rel: "w2 = w1" "answers os = (case out of None \<Rightarrow> [] | Some r \<Rightarrow> [r])"
      "out = None \<longrightarrow> length os = nat mr"
      by simp_all
    show ?thesis
    proof (cases out)
      case (Some resp)
      with Cons.prems(2) True st rl have "res = Inr resp" "w' = w1" by auto
      moreover from Cons.prems(3) True at rel Some have "tr = os" "wl = w1" by auto
      ultimately show ?thesis using rel Some by auto
    next
      case None
      let ?ps1 = "pstats(name p \<mapsto> st')"
      from Cons.prems(2) True st rl None have
        rec: "fallback_loop rest m prm mr ?ps1 w1 = (res, pstats', w')" by simp
      have reg: "\<forall>q\<in>set rest. is_available q \<longrightarrow> ?ps1 (name q) \<noteq> None"
        using Cons.prems(1) by auto
      obtain later w3 where lg: "attempt_log rest m prm (nat mr) w1 = (later, w3)"
        by (cases "attempt_log rest m prm (nat mr) w1")
      from Cons.prems(3) True at rel None lg have trace: "tr = os @ later" "wl = w3" by auto
      from Cons.IH[OF reg rec lg] trace rel None True show ?thesis by simp
    qed
  qed
qed

lemmas scenario_defs =
  scenario_AB_def scenario_down_def fresh_orchestrator_def register_provider_def
  failing_provider_def answering_provider_def offline_provider_def ok_response_def new_stats_def
  window_cfg_def ConversationContext_init_def hello_def chat_params_def
  execute_with_fallback_def is_available_def Let_def

text \<open>
  Claim C1, as amended.  Let \<open>a\<close> and \<open>b\<close> be the first and the second adapter of the list
  whose availability probe answers true, let every \<open>chat\<close> of \<open>a\<close> raise and every \<open>chat\<close>
  of \<open>b\<close> answer.  When \<open>max_retries\<close> is at least 1, \<open>_execute_with_fallback\<close> returns a
  response that \<open>b\<close>'s \<open>chat\<close> gave, the failure counter of \<open>a\<close> has grown by \<open>max_retries\<close>
  and the success counter of \<open>b\<close> by one; when the two adapters have different names, the
  attempt counter of \<open>a\<close> has grown by \<open>max_retries\<close> and that of \<open>b\<close> by one; nothing but
  \<open>provider_stats\<close> changes in the orchestrator.  When \<open>max_retries\<close> is zero or negative
  (every available adapter having its entry in \<open>provider_stats\<close>, as \<open>register_provider\<close>
  ensures), the call raises \<open>AllProvidersFailedException\<close> and leaves the orchestrator and
  the world as they were: no adapter is called and no counter moves.
\<close>

theorem execute_with_fallback_second_adapter:
  assumes avail: "filter is_available (providers orch) = a # b # rest"
    and a_fails: "\<forall>w. \<exists>e w'. provider_chat a w m prm = (Inl e, w')"
    and b_answers: "\<forall>w. \<exists>r w'. provider_chat b w m prm = (Inr r, w')"
    and sa: "provider_stats orch (name a) = Some sa"
    and sb: "provider_stats orch (name b) = Some sb"
  shows "(0 < mr \<longrightarrow>
          (\<exists>r pstats' w1 w'.
             execute_with_fallback orch m prm mr w = (Inr r, orch\<lparr>provider_stats := pstats'\<rparr>, w') \<and>
             provider_chat b w1 m prm = (Inr r, w') \<and>
             (\<exists>sa' sb'. pstats' (name a) = Some sa' \<and> pstats' (name b) = Some sb' \<and>
                failures sa' = failures sa + mr \<and> successes sb' = successes sb + 1 \<and>
                (name a \<noteq> name b \<longrightarrow>
                   requests sa' = requests sa + mr \<and> successes sa' = successes sa \<and>
                   requests sb' = requests sb + 1 \<and> failures sb' = failures sb)))) \<and>
         (mr \<le> 0 \<and>
          (\<forall>p\<in>set (providers orch). is_available p \<longrightarrow> provider_stats orch (name p) \<noteq> None) \<longrightarrow>
            execute_with_fallback orch m prm mr w = (Inl AllProvidersFailedException, orch, w))"
proof (intro conjI impI)
  assume retries: "0 < mr"
  from avail[unfolded filter_eq_Cons_iff] obtain us vs where
    ps: "providers orch = us @ a # vs" and us: "\<forall>u\<in>set us. \<not> is_available u"
    and a: "is_available a" and vs: "b # rest = filter is_available vs"
    by blast
  from vs[symmetric, unfolded filter_eq_Cons_iff] obtain us2 vs2 where
    vs': "vs = us2 @ b # vs2" and us2: "\<forall>u\<in>set us2. \<not> is_available u" and b: "is_available b"
    by blast
  let ?P = "provider_stats orch"
  let ?sa' = "failed_attempts (nat mr) sa"
  from retry_loop_always_fails[OF a_fails, of mr sa w] obtain w1 where
    ra: "retry_loop a m prm mr [0..<nat mr] sa w = (None, ?sa', w1)" by blast
  let ?P1 = "?P(name a \<mapsto> ?sa')"
  let ?sbx = "if name b = name a then ?sa' else sb"
  have lookup: "?P1 (name b) = Some ?sbx" using sb by simp
  from b_answers obtain r w2 where cb: "provider_chat b w1 m prm = (Inr r, w2)" by blast
  let ?sb' = "?sbx\<lparr>requests := requests ?sbx + 1, successes := successes ?sbx + 1\<rparr>"
  note rb = retry_loop_first_success[OF retries cb, of ?sbx]
  let ?P2 = "?P1(name b \<mapsto> ?sb')"
  have "fallback_loop (providers orch) m prm mr ?P w = fallback_loop (a # vs) m prm mr ?P w"
    unfolding ps by (rule fallback_loop_skip[OF us])
  also have "\<dots> = fallback_loop vs m prm mr ?P1 w1"
    using a sa ra by simp
  also have "\<dots> = fallback_loop (b # vs2) m prm mr ?P1 w1"
    unfolding vs' by (rule fallback_loop_skip[OF us2])
  also have "\<dots> = (Inr r, ?P2, w2)"
    using b lookup rb by (simp del: fun_upd_apply)
  finally have loop: "fallback_loop (providers orch) m prm mr ?P w = (Inr r, ?P2, w2)" .
  have ne: "providers orch \<noteq> []" using ps by simp
  have exec: "execute_with_fallback orch m prm mr w = (Inr r, orch\<lparr>provider_stats := ?P2\<rparr>, w2)"
    using ne loop by (simp add: execute_with_fallback_def)
  have same: "sa = sb" if "name a = name b" using that sa sb by simp
  let ?sa'' = "if name a = name b then ?sb' else ?sa'"
  have A: "?P2 (name a) = Some ?sa''" by simp
  have B: "?P2 (name b) = Some ?sb'" by simp
  have facts: "failures ?sa'' = failures sa + mr \<and> successes ?sb' = successes sb + 1 \<and>
              (name a \<noteq> name b \<longrightarrow>
                 requests ?sa'' = requests sa + mr \<and> successes ?sa'' = successes sa \<and>
                 requests ?sb' = requests sb + 1 \<and> failures ?sb' = failures sb)"
    using retries same by (auto simp: failed_attempts_def)
  from exec cb A B facts show "\<exists>r pstats' w1 w'.
             execute_with_fallback orch m prm mr w = (Inr r, orch\<lparr>provider_stats := pstats'\<rparr>, w') \<and>
             provider_chat b w1 m prm = (Inr r, w') \<and>
             (\<exists>sa' sb'. pstats' (name a) = Some sa' \<and> pstats' (name b) = Some sb' \<and>
                failures sa' = failures sa + mr \<and> successes sb' = successes sb + 1 \<and>
                (name a \<noteq> name b \<longrightarrow>
                   requests sa' = requests sa + mr \<and> successes sa' = successes sa \<and>
                   requests sb' = requests sb + 1 \<and> failures sb' = failures sb))"
    by blast
next
  assume none: "mr \<le> 0 \<and>
    (\<forall>p\<in>set (providers orch). is_available p \<longrightarrow> provider_stats orch (name p) \<noteq> None)"
  from avail have ne: "providers orch \<noteq> []" by auto
  from none have
    "fallback_loop (providers orch) m prm mr (provider_stats orch) w
       = (Inl AllProvidersFailedException, provider_stats orch, w)"
    by (intro fallback_loop_no_attempts) simp_all
  with ne show "execute_with_fallback orch m prm mr w = (Inl AllProvidersFailedException, orch, w)"
    by (simp add: execute_with_fallback_def)
qed

text \<open>
  The scenario of the specification, with fresh counters.  With \<open>max_retries = 2\<close> the
  response is B's, A has failed twice and B has succeeded once; with \<open>max_retries = -1\<close>
  the call raises and nothing has changed.
\<close>

theorem execute_with_fallback_second_adapter_witness:
  "map name (providers scenario_AB) = [''A'', ''B''] \<and>
   fst (execute_with_fallback scenario_AB hello chat_params 2 0)
     = Inr (ok_response ''B'' ''deepseek-chat'' ''ok'') \<and>
   provider_stats (fst (snd (execute_with_fallback scenario_AB hello chat_params 2 0))) ''A''
     = Some \<lparr>requests = 2, successes = 0, failures = 2\<rparr> \<and>
   provider_stats (fst (snd (execute_with_fallback scenario_AB hello chat_params 2 0))) ''B''
     = Some \<lparr>requests = 1, successes = 1, failures = 0\<rparr> \<and>
   execute_with_fallback scenario_AB hello chat_params (- 1) 0
     = (Inl AllProvidersFailedException, scenario_AB, 0)"
proof -
  have avail: "filter is_available (providers scenario_AB)
                 = failing_provider ''A'' # answering_provider ''B'' ''ok'' # []"
    by (simp add: scenario_defs)
  have a_fails: "\<forall>w. \<exists>e w'. provider_chat (failing_provider ''A'') w hello chat_params = (Inl e, w')"
    by (simp add: failing_provider_def)
  have b_answers:
    "\<forall>w. \<exists>r w'. provider_chat (answering_provider ''B'' ''ok'') w hello chat_params = (Inr r, w')"
    by (simp add: answering_provider_def)
  have sa: "provider_stats scenario_AB (name (failing_provider ''A'')) = Some new_stats"
    by (simp add: scenario_defs)
  have sb: "provider_stats scenario_AB (name (answering_provider ''B'' ''ok'')) = Some new_stats"
    by (simp add: scenario_defs)
  have registered: "\<forall>p\<in>set (providers scenario_AB).
      is_available p \<longrightarrow> provider_stats scenario_AB (name p) \<noteq> None"
    by (simp add: scenario_defs)
  have negative: "execute_with_fallback scenario_AB hello chat_params (- 1) 0
     = (Inl AllProvidersFailedException, scenario_AB, 0)"
    using execute_with_fallback_second_adapter[OF avail a_fails b_answers sa sb, of "- 1" 0]
      registered by simp
  have positive: "fst (execute_with_fallback scenario_AB hello chat_params 2 0)
     = Inr (ok_response ''B'' ''deepseek-chat'' ''ok'') \<and>
   provider_stats (fst (snd (execute_with_fallback scenario_AB hello chat_params 2 0))) ''A''
     = Some \<lparr>requests = 2, successes = 0, failures = 2\<rparr> \<and>
   provider_stats (fst (snd (execute_with_fallback scenario_AB hello chat_params 2 0))) ''B''
     = Some \<lparr>requests = 1, successes = 1, failures = 0\<rparr>"
    using execute_with_fallback_second_adapter[OF avail a_fails b_answers sa sb, of 2 0]
    by (simp add: scenario_defs upt_conv_Cons)
  have order: "map name (providers scenario_AB) = [''A'', ''B'']"
    by (simp add: scenario_defs)
  from order positive negative show ?thesis by simp
qed

text \<open>
  With \<open>max_retries = 0\<close> the loop \<open>for attempt in range(max_retries)\<close> has no turn: no
  adapter is called, B's success counter stays at 0 and the call raises.
\<close>

theorem execute_with_fallback_zero_retries_counterexample:
  "fst (execute_with_fallback scenario_AB hello chat_params 0 0) = Inl AllProvidersFailedException \<and>
   provider_stats (fst (snd (execute_with_fallback scenario_AB hello chat_params 0 0))) ''A''
     = Some \<lparr>requests = 0, successes = 0, failures = 0\<rparr> \<and>
   provider_stats (fst (snd (execute_with_fallback scenario_AB hello chat_params 0 0))) ''B''
     = Some \<lparr>requests = 0, successes = 0, failures = 0\<rparr> \<and>
   snd (snd (execute_with_fallback scenario_AB hello chat_params 0 0)) = 0"
  by (simp add: scenario_defs)

text \<open>
  Claim C3, as amended.  On a non-empty adapter list (every available adapter having its
  entry in \<open>provider_stats\<close>, as \<open>register_provider\<close> ensures), \<open>_execute_with_fallback\<close>
  either returns a response or raises \<open>AllProvidersFailedException\<close>.  Take the \<open>chat\<close>
  calls that the specification prescribes, in order, each adapter being asked up to
  \<open>max_retries\<close> times: the executor raises exactly when none of these calls answered, and
  returns \<open>r\<close> exactly when \<open>r\<close> is the one answer among them; the world it leaves is the
  world after these calls.  When it raises, every available adapter of the list has been
  called \<open>max_retries\<close> times, every entry of \<open>provider_stats\<close> has grown by that many
  attempts and failures for each available adapter of its name, and no success counter
  has moved.  It raises in particular when no adapter is available.  (On the empty list
  it raises \<open>ValueError\<close> instead, see the counterexample.)
\<close>

theorem execute_with_fallback_failure:
  assumes nonempty: "providers orch \<noteq> []"
    and registered: "\<forall>p\<in>set (providers orch). is_available p \<longrightarrow> provider_stats orch (name p) \<noteq> None"
    and exec: "execute_with_fallback orch m prm mr w = (res, orch', w')"
    and attempts: "attempt_log (providers orch) m prm (nat mr) w = (tr, wl)"
  shows "(res = Inl AllProvidersFailedException \<or> (\<exists>r. res = Inr r)) \<and>
         (res = Inl AllProvidersFailedException \<longleftrightarrow>
            (\<forall>n. map_option successes (provider_stats orch' n)
                   = map_option successes (provider_stats orch n))) \<and>
         (\<forall>r. res = Inr r \<longrightarrow>
            (\<exists>p\<in>set (providers orch). is_available p \<and>
               (\<exists>w1. provider_chat p w1 m prm = (Inr r, w')))) \<and>
         (res = Inl AllProvidersFailedException \<longrightarrow>
            (\<forall>n. provider_stats orch' n
                   = map_option (failed_attempts (nat mr * available_named n (providers orch)))
                       (provider_stats orch n))) \<and>
         ((\<forall>p\<in>set (providers orch). \<not> is_available p) \<longrightarrow>
            res = Inl AllProvidersFailedException) \<and>
         wl = w' \<and>
         (res = Inl AllProvidersFailedException \<longleftrightarrow> answers tr = []) \<and>
         (\<forall>r. res = Inr r \<longleftrightarrow> answers tr = [r]) \<and>
         (res = Inl AllProvidersFailedException \<longrightarrow>
            length tr = nat mr * length (filter is_available (providers orch)))"
proof -
  let ?P = "provider_stats orch"
  let ?P' = "provider_stats orch'"
  from exec nonempty have loop: "fallback_loop (providers orch) m prm mr ?P w = (res, ?P', w')"
    by (auto simp: execute_with_fallback_def split: prod.splits)
  have cases: "res = Inl AllProvidersFailedException \<or> (\<exists>r. res = Inr r)"
    using fallback_loop_cases[OF registered, of m prm mr w] loop by simp
  have failed: "?P' n = map_option (failed_attempts (nat mr * available_named n (providers orch))) (?P n)"
    if "res = Inl AllProvidersFailedException" for n
    using fallback_loop_failed[OF _ registered, of m prm mr w ?P' w' n] loop that by simp
  have unmoved: "map_option successes (?P' n) = map_option successes (?P n)"
    if "res = Inl AllProvidersFailedException" for n
    using failed[OF that, of n] by (cases "?P n") auto
  have answered: "(\<exists>p\<in>set (providers orch). is_available p \<and>
               (\<exists>w1. provider_chat p w1 m prm = (Inr r, w'))) \<and>
            (\<exists>n. map_option successes (?P' n) \<noteq> map_option successes (?P n))"
    if "res = Inr r" for r
  proof -
    from fallback_loop_success[of "providers orch" m prm mr ?P w r ?P' w'] loop that
    obtain n st st' where
      p: "\<exists>p\<in>set (providers orch). is_available p \<and> (\<exists>w1. provider_chat p w1 m prm = (Inr r, w'))"
      and n: "?P n = Some st" "?P' n = Some st'" "successes st' = successes st + 1"
      by auto
    from n have "map_option successes (?P' n) \<noteq> map_option successes (?P n)" by simp
    with p show ?thesis by blast
  qed
  have iff: "res = Inl AllProvidersFailedException \<longleftrightarrow>
            (\<forall>n. map_option successes (?P' n) = map_option successes (?P n))"
    using cases unmoved answered by blast
  have offline: "res = Inl AllProvidersFailedException"
    if "\<forall>p\<in>set (providers orch). \<not> is_available p"
    using cases answered that by blast
  have counters:
    "(res = Inl AllProvidersFailedException \<or> (\<exists>r. res = Inr r)) \<and>
     (res = Inl AllProvidersFailedException \<longleftrightarrow>
        (\<forall>n. map_option successes (?P' n) = map_option successes (?P n))) \<and>
     (\<forall>r. res = Inr r \<longrightarrow>
        (\<exists>p\<in>set (providers orch). is_available p \<and>
           (\<exists>w1. provider_chat p w1 m prm = (Inr r, w')))) \<and>
     (res = Inl AllProvidersFailedException \<longrightarrow>
        (\<forall>n. ?P' n
               = map_option (failed_attempts (nat mr * available_named n (providers orch)))
                   (?P n))) \<and>
     ((\<forall>p\<in>set (providers orch). \<not> is_available p) \<longrightarrow>
        res = Inl AllProvidersFailedException)"
    using cases iff answered failed offline by blast
  note calls = fallback_loop_log[OF registered loop attempts]
  from counters calls show ?thesis by blast
qed

text \<open>
  A fails twice, B's health check raises, C fails twice: four backend calls, none of
  which answers, then \<open>AllProvidersFailedException\<close>.  In the scenario of the
  specification the third call answers, and that answer is returned.
\<close>

theorem execute_with_fallback_failure_witness:
  "map name (providers scenario_down) = [''A'', ''B'', ''C''] \<and>
   fst (attempt_log (providers scenario_down) hello chat_params 2 0)
     = [Inl (BackendError ''timeout''), Inl (BackendError ''timeout''),
        Inl (BackendError ''timeout''), Inl (BackendError ''timeout'')] \<and>
   fst (execute_with_fallback scenario_down hello chat_params 2 0) = Inl AllProvidersFailedException \<and>
   provider_stats (fst (snd (execute_with_fallback scenario_down hello chat_params 2 0))) ''A''
     = Some \<lparr>requests = 2, successes = 0, failures = 2\<rparr> \<and>
   provider_stats (fst (snd (execute_with_fallback scenario_down hello chat_params 2 0))) ''B''
     = Some \<lparr>requests = 0, successes = 0, failures = 0\<rparr> \<and>
   provider_stats (fst (snd (execute_with_fallback scenario_down hello chat_params 2 0))) ''C''
     = Some \<lparr>requests = 2, successes = 0, failures = 2\<rparr> \<and>
   snd (snd (execute_with_fallback scenario_down hello chat_params 2 0)) = 4 \<and>
   fst (attempt_log (providers scenario_AB) hello chat_params 2 0)
     = [Inl (BackendError ''timeout''), Inl (BackendError ''timeout''),
        Inr (ok_response ''B'' ''deepseek-chat'' ''ok'')] \<and>
   fst (execute_with_fallback scenario_AB hello chat_params 2 0)
     = Inr (ok_response ''B'' ''deepseek-chat'' ''ok'')"
proof -
  have nonempty: "providers scenario_down \<noteq> []" "providers scenario_AB \<noteq> []"
    by (simp_all add: scenario_defs)
  have registered: "\<forall>p\<in>set (providers scenario_down).
      is_available p \<longrightarrow> provider_stats scenario_down (name p) \<noteq> None"
    "\<forall>p\<in>set (providers scenario_AB).
      is_available p \<longrightarrow> provider_stats scenario_AB (name p) \<noteq> None"
    by (simp_all add: scenario_defs)
  have exec: "execute_with_fallback orch hello chat_params 2 0
      = (fst (execute_with_fallback orch hello chat_params 2 0),
         fst (snd (execute_with_fallback orch hello chat_params 2 0)),
         snd (snd (execute_with_fallback orch hello chat_params 2 0)))"
    for orch :: "(nat, unit, unit) AIOrchestrator"
    by simp
  have attempts: "attempt_log (providers orch) hello chat_params (nat 2) 0
      = (fst (attempt_log (providers orch) hello chat_params (nat 2) 0),
         snd (attempt_log (providers orch) hello chat_params (nat 2) 0))"
    for orch :: "(nat, unit, unit) AIOrchestrator"
    by simp
  show ?thesis
    using execute_with_fallback_failure[OF nonempty(1) registered(1) exec attempts]
      execute_with_fallback_failure[OF nonempty(2) registered(2) exec attempts]
    by (simp add: scenario_defs upt_conv_Cons eval_nat_numeral)
qed

text \<open>No adapter registered: the guard at the head of the method raises \<open>ValueError\<close>.\<close>

theorem execute_with_fallback_no_adapter_counterexample:
  "fst (execute_with_fallback (fresh_orchestrator None) hello chat_params 3 0) = Inl ValueError \<and>
   fst (execute_with_fallback (fresh_orchestrator None) hello chat_params 3 0)
     \<noteq> Inl AllProvidersFailedException"
  by (simp add: scenario_defs)

section \<open>Properties of \<open>chat\<close>\<close>

text \<open>
  A cache hit with a non-empty answer ends \<open>chat\<close> at once: the response is marked as
  cached and only the cache itself (pruned, one hit counted) has changed.
\<close>

lemma chat_cache_hit:
  assumes "use_cache" "semantic_cache orch = Some sc"
    and "get_cached_response (numpy_ops env) (encode env) (clock env w) prompt sc
           = (Inr (Some answer), sc')"
    and "answer \<noteq> []"
  shows "chat env prompt model_arg use_conversation use_cache use_tools max_retries orch w
           = (Inr \<lparr>response_content = answer, response_model = ''cached'', provider = ''cache'',
                   tokens_used = 0, cached = True, tool_calls = None\<rparr>,
              orch\<lparr>semantic_cache := Some sc'\<rparr>, w)"
  using assms by (simp add: chat_def)

lemmas chat_defs =
  chat_def chat_uncached_def chat_commit_def tool_round_def execute_with_fallback_def
  get_cached_response_def cleanup_old_entries_def fresh_entries_def get_embedding_def
  cache_response_def cosine_similarity_def exact_numpy_def
  add_message_def manage_context_window.simps get_messages_def smart_route_model_def
  reasoning_keywords_def simple_keywords_def ascii_lower_def ascii_lower_char_def sublist_code
  is_available_def register_provider_def new_stats_def total_requests_def
  plain_env_def unit_encode_def empty_cache_def silent_orchestrator_def fresh_orchestrator_def
  answering_provider_def ok_response_def window_cfg_def ConversationContext_init_def Let_def

text \<open>
  Claim C10.  \<open>chat\<close> tests the cached answer with \<open>if cached:\<close>, which is false for the
  empty string.  After a first \<open>chat(''hello'')\<close> that a backend answered with an empty
  content, the cache holds that answer.  A second \<open>chat(''hello'')\<close> hits it (the lookup
  returns the stored answer and the entry's hit counter goes from 0 to 1) and still runs
  the whole request: the backend is called, two messages are appended to the conversation,
  a second record enters the request history and the response is not marked as cached.
\<close>

theorem chat_empty_cache_hit:
  "map content (history (conversation (fst after_first_chat))) = [''hello'', []] \<and>
   total_requests (fst after_first_chat) = 1 \<and>
   map_option (map (\<lambda>e. (query e, response e, hits e)) \<circ> cache)
     (semantic_cache (fst after_first_chat)) = Some [(''hello'', [], 0)] \<and>
   map_option (\<lambda>sc. fst (get_cached_response exact_numpy unit_encode 1 ''hello'' sc))
     (semantic_cache (fst after_first_chat)) = Some (Inr (Some [])) \<and>
   fst second_chat = Inr (ok_response ''B'' ''deepseek-chat'' []) \<and>
   map content (history (conversation (fst (snd second_chat)))) = [''hello'', [], ''hello'', []] \<and>
   total_requests (fst (snd second_chat)) = 2 \<and>
   map_option (map (\<lambda>e. (query e, response e, hits e)) \<circ> cache)
     (semantic_cache (fst (snd second_chat))) = Some [(''hello'', [], 1), (''hello'', [], 0)]"
  unfolding second_chat_def after_first_chat_def
  by (simp add: chat_defs upt_conv_Cons)

end
